theory Spec2Isabelle
  imports Main
begin

unbundle bit_operations_syntax

section \<open>Data model\<close>

text \<open>
  The instruction controller of the emulator (\<^verbatim>\<open>core/machine/instruction_controller.py\<close>)
  works on operands, instructions and four collaborators (clock, ALU, memory controller,
  register controller). The operand classes and the collaborators live in modules that are
  not part of the sources at hand; they are modelled from the specification, each under a
  comment that says so. The controller itself is translated from its source, handler by
  handler.

  Python integers are unbounded and are modelled as \<^typ>\<open>int\<close>.
\<close>

text \<open>
  Modelled from the spec: the operand classes of \<^verbatim>\<open>core.model\<close>. A constant carries an
  immediate value, a register names a slot of the register controller, an address is a
  label with a numeric offset, an indirect address is an address with a nested offset
  operand, a label carries a resolved program location.
\<close>

datatype operand =
    Constant int
  | Register string
  | Address string int
  | IndirectAddress string int operand
  | Label string int

text \<open>
  An instruction has a name, its operands and its sub-instructions. The source tests
  \<^verbatim>\<open>if self.current.sub\<close>, so a missing list and an empty list are the same: both are \<open>[]\<close>.
\<close>

datatype instruction =
  Instruction (name: string) (operands: "operand list") (sub: "instruction list")

text \<open>
  Exceptions are values. \<open>OperandIsNotWriteable\<close> and \<open>ProgramExit\<close> are raised by the
  controller itself, \<open>ALUDZeroDivisionError\<close> by the ALU; the others are the exceptions of
  the Python runtime that the controller's code can raise.
\<close>

datatype error =
    OperandIsNotWriteable int
  | ProgramExit
  | ALUDZeroDivisionError
  | ValueError
  | IndexError
  | KeyError string
  | TypeError
  | AttributeError
  | OverflowError

datatype outcome = Completed | Raised error

datatype Flag = Z | N

text \<open>
  Modelled from the spec: the memory controller, \<^verbatim>\<open>get(address) -> integer\<close> and
  \<^verbatim>\<open>set(address, integer) -> unit\<close>, addressed by (label, offset) pairs. It may stand for
  data memory as well as for character sinks and sources, so a read may change it (an input
  stream moves on). It is an object with hidden state: \<open>mem_value\<close> is what \<^verbatim>\<open>get\<close>
  returns, \<open>mem_after_get\<close> the controller after that read, \<open>mem_after_set\<close> the controller
  after a write.
\<close>

codatatype memory_controller =
  MemoryController
    (mem_value: "string \<times> int \<Rightarrow> int")
    (mem_after_get: "string \<times> int \<Rightarrow> memory_controller")
    (mem_after_set: "string \<times> int \<Rightarrow> int \<Rightarrow> memory_controller")

text \<open>
  The state of the machine: the controller's own cursor (\<open>current\<close>, \<open>current_sub\<close>) and
  the state of its collaborators.
  Modelled from the spec: the clock counts cycles (\<open>ticks\<close>) and instructions
  (\<open>instructions\<close>); the ALU holds the flags; the register controller holds the register
  slots and the instruction pointer.
\<close>

record machine =
  current :: "instruction option"
  current_sub :: "instruction option"
  ticks :: nat
  instructions :: nat
  flags :: "Flag \<Rightarrow> bool"
  memory :: memory_controller
  registers :: "string \<Rightarrow> int"
  instruction_pointer :: int

text \<open>
  What the code takes from its platform: \<open>NULL_TERM\<close> of \<^verbatim>\<open>core.machine.config\<close> (not
  part of the sources at hand); the interpreter's limit on the number of digits in
  conversions between integers and strings (\<^verbatim>\<open>sys.get_int_max_str_digits()\<close>, 4300 unless
  configured otherwise, 0 for no limit); and the Unicode tables of the interpreter that
  \<^verbatim>\<open>int\<close> consults for characters outside ASCII.
\<close>

record platform =
  NULL_TERM :: int
  int_max_str_digits :: nat
  unicode_space :: "int \<Rightarrow> bool"
  unicode_decimal :: "int \<Rightarrow> int option"

section \<open>Collaborators\<close>

definition clock_tick :: "machine \<Rightarrow> machine" where
  "clock_tick st = st\<lparr>ticks := ticks st + 1\<rparr>"

definition clock_inst :: "machine \<Rightarrow> machine" where
  "clock_inst st = st\<lparr>instructions := instructions st + 1\<rparr>"

definition memory_get :: "string \<times> int \<Rightarrow> machine \<Rightarrow> int \<times> machine" where
  "memory_get a st = (mem_value (memory st) a, st\<lparr>memory := mem_after_get (memory st) a\<rparr>)"

definition memory_set :: "string \<times> int \<Rightarrow> int \<Rightarrow> machine \<Rightarrow> machine" where
  "memory_set a v st = st\<lparr>memory := mem_after_set (memory st) a v\<rparr>"

definition registers_get :: "string \<Rightarrow> machine \<Rightarrow> int" where
  "registers_get r st = registers st r"

definition registers_set :: "string \<Rightarrow> int \<Rightarrow> machine \<Rightarrow> machine" where
  "registers_set r v st = st\<lparr>registers := (registers st)(r := v)\<rparr>"

definition get_instruction_pointer :: "machine \<Rightarrow> int" where
  "get_instruction_pointer st = instruction_pointer st"

definition set_instruction_pointer :: "int \<Rightarrow> machine \<Rightarrow> machine" where
  "set_instruction_pointer v st = st\<lparr>instruction_pointer := v\<rparr>"

definition get_flag :: "Flag \<Rightarrow> machine \<Rightarrow> bool" where
  "get_flag f st = flags st f"

text \<open>
  The reducers are the functions of Python's \<^verbatim>\<open>operator\<close> module on integers; \<open>None\<close> is
  the \<^verbatim>\<open>ZeroDivisionError\<close> of a zero divisor. Python's floor division and modulo are
  \<open>div\<close> and \<open>mod\<close> on \<^typ>\<open>int\<close>, its bitwise operations on integers those of \<^typ>\<open>int\<close>.
\<close>

definition operator_add :: "int \<Rightarrow> int \<Rightarrow> int option" where
  "operator_add a b = Some (a + b)"

definition operator_sub :: "int \<Rightarrow> int \<Rightarrow> int option" where
  "operator_sub a b = Some (a - b)"

definition operator_mul :: "int \<Rightarrow> int \<Rightarrow> int option" where
  "operator_mul a b = Some (a * b)"

definition operator_floordiv :: "int \<Rightarrow> int \<Rightarrow> int option" where
  "operator_floordiv a b = (if b = 0 then None else Some (a div b))"

definition operator_mod :: "int \<Rightarrow> int \<Rightarrow> int option" where
  "operator_mod a b = (if b = 0 then None else Some (a mod b))"

definition operator_xor :: "int \<Rightarrow> int \<Rightarrow> int option" where
  "operator_xor a b = Some (a XOR b)"

definition operator_and :: "int \<Rightarrow> int \<Rightarrow> int option" where
  "operator_and a b = Some (a AND b)"

definition operator_or :: "int \<Rightarrow> int \<Rightarrow> int option" where
  "operator_or a b = Some (a OR b)"

text \<open>
  Modelled from the spec: the ALU's \<^verbatim>\<open>operation(reducer, a, b)\<close>. It applies the reducer,
  sets Z iff the result is zero and N iff the result is negative, and returns the result; a
  division by zero is its fault \<open>ALUDZeroDivisionError\<close> (the name is the one the source's
  docstrings give), raised before any flag changes.
\<close>

definition alu_operation ::
  "(int \<Rightarrow> int \<Rightarrow> int option) \<Rightarrow> int \<Rightarrow> int \<Rightarrow> machine \<Rightarrow> (error + int) \<times> machine" where
  "alu_operation reducer a b st =
     (case reducer a b of
        None \<Rightarrow> (Inl ALUDZeroDivisionError, st)
      | Some r \<Rightarrow> (Inr r, st\<lparr>flags := (\<lambda>f. case f of Z \<Rightarrow> r = 0 | N \<Rightarrow> r < 0)\<rparr>))"

section \<open>Python built-ins used by the controller\<close>

text \<open>
  The decimal string of an integer: the decimal digits, after a minus sign if negative.
\<close>

fun digits_of :: "nat \<Rightarrow> string" where
  "digits_of n =
     (if n < 10 then [''0123456789'' ! n]
      else digits_of (n div 10) @ [''0123456789'' ! (n mod 10)])"

declare digits_of.simps [simp del]

definition decimal_string :: "int \<Rightarrow> string" where
  "decimal_string v =
     (if v < 0 then CHR ''-'' # digits_of (nat (- v)) else digits_of (nat v))"

text \<open>
  The interpreter refuses conversions between integers and decimal strings beyond its digit
  limit with \<^verbatim>\<open>ValueError\<close>. The limit is looked at only for strings of more than 640
  characters (\<open>len\<close>), and it bounds the number of digits.
\<close>

definition MAX_STR_DIGITS_THRESHOLD :: nat where
  "MAX_STR_DIGITS_THRESHOLD = 640"

definition exceeds_str_digits :: "platform \<Rightarrow> nat \<Rightarrow> nat \<Rightarrow> bool" where
  "exceeds_str_digits env len digits =
     (0 < int_max_str_digits env \<and> MAX_STR_DIGITS_THRESHOLD < len \<and>
      int_max_str_digits env < digits)"

text \<open>
  \<^verbatim>\<open>str(value)\<close> of an integer: its decimal string, or \<^verbatim>\<open>ValueError\<close> (\<open>None\<close>) when the
  number of its digits, the sign not counted, exceeds the limit.
\<close>

definition py_str :: "platform \<Rightarrow> int \<Rightarrow> string option" where
  "py_str env v =
     (if exceeds_str_digits env (length (decimal_string v))
           (length (decimal_string v) - (if v < 0 then 1 else 0))
      then None else Some (decimal_string v))"

text \<open>\<^verbatim>\<open>ord\<close> of a character of such a string is its code.\<close>

definition ord :: "char \<Rightarrow> int" where
  "ord c = of_char c"

text \<open>
  \<^verbatim>\<open>chr(i)\<close> is defined for \<open>0 \<le> i \<le> 0x10FFFF\<close>. Otherwise it raises \<^verbatim>\<open>ValueError\<close>, and
  \<^verbatim>\<open>OverflowError\<close> for an argument outside the range of a C integer (32 bits). A Python
  string is modelled as the list of its code points.
\<close>

definition chr :: "int \<Rightarrow> error + int" where
  "chr i =
     (if 0 \<le> i \<and> i \<le> 0x10FFFF then Inr i
      else if - (2 ^ 31) \<le> i \<and> i < 2 ^ 31 then Inl ValueError
      else Inl OverflowError)"

text \<open>
  \<^verbatim>\<open>int(s)\<close> of a string, base 10. Characters from code 127 on are first replaced: a
  Unicode space by a blank, a Unicode decimal digit by its ASCII digit, anything else by a
  question mark. Then: blanks (codes 9 to 13 and 32) around the literal are dropped, one
  sign is allowed, and the rest must be decimal digits, with single underscores allowed
  between digits; the number of digits must not exceed the interpreter's limit. \<open>None\<close> is
  \<^verbatim>\<open>ValueError\<close>.
\<close>

definition to_ascii :: "platform \<Rightarrow> int \<Rightarrow> int" where
  "to_ascii env c =
     (if c < 127 then c
      else if unicode_space env c then 32
      else (case unicode_decimal env c of Some d \<Rightarrow> 48 + d | None \<Rightarrow> 63))"

definition is_space :: "int \<Rightarrow> bool" where
  "is_space c = (c = 32 \<or> (9 \<le> c \<and> c \<le> 13))"

definition is_digit :: "int \<Rightarrow> bool" where
  "is_digit c = (48 \<le> c \<and> c \<le> 57)"

fun parse_digits :: "int \<Rightarrow> int list \<Rightarrow> int option" where
  "parse_digits acc [] = Some acc"
| "parse_digits acc [c] = (if is_digit c then Some (10 * acc + (c - 48)) else None)"
| "parse_digits acc (c # d # cs) =
     (if is_digit c then
        (if d = 95 then
           (case cs of [] \<Rightarrow> None
            | e # _ \<Rightarrow> if is_digit e then parse_digits (10 * acc + (c - 48)) cs else None)
         else parse_digits (10 * acc + (c - 48)) (d # cs))
      else None)"

definition parse_unsigned :: "platform \<Rightarrow> int list \<Rightarrow> int option" where
  "parse_unsigned env s =
     (case s of
        [] \<Rightarrow> None
      | _ # _ \<Rightarrow>
          if exceeds_str_digits env (length (filter is_digit s)) (length (filter is_digit s))
          then None
          else parse_digits 0 s)"

definition parse_signed :: "platform \<Rightarrow> int list \<Rightarrow> int option" where
  "parse_signed env s =
     (case s of
        [] \<Rightarrow> None
      | c # cs \<Rightarrow>
          if c = 45 then map_option uminus (parse_unsigned env cs)
          else if c = 43 then parse_unsigned env cs
          else parse_unsigned env s)"

definition strip :: "int list \<Rightarrow> int list" where
  "strip s = rev (dropWhile is_space (rev (dropWhile is_space s)))"

definition py_int :: "platform \<Rightarrow> int list \<Rightarrow> int option" where
  "py_int env s = parse_signed env (strip (map (to_ascii env) s))"

section \<open>Operand resolver\<close>

text \<open>
  \<^verbatim>\<open>get_operand_value\<close>, \<^verbatim>\<open>set_operand_value\<close> and \<^verbatim>\<open>_same_bus\<close>, with the cases in the
  order of the source's \<^verbatim>\<open>isinstance\<close> tests. A read goes through the memory controller
  and may change it, so the state is returned with the value.
\<close>

fun get_operand_value :: "operand \<Rightarrow> machine \<Rightarrow> int \<times> machine" where
  "get_operand_value (IndirectAddress label v offset) st =
     (case get_operand_value offset st of
        (off, st1) \<Rightarrow> memory_get (label, v + off) st1)"
| "get_operand_value (Address label v) st = memory_get (label, v) st"
| "get_operand_value (Register r) st = (registers_get r st, st)"
| "get_operand_value (Constant v) st = (v, st)"
| "get_operand_value (Label l v) st = (v, st)"

fun set_operand_value :: "operand \<Rightarrow> int \<Rightarrow> machine \<Rightarrow> outcome \<times> machine" where
  "set_operand_value (IndirectAddress label v offset) val st =
     (case get_operand_value offset st of
        (off, st1) \<Rightarrow> (Completed, memory_set (label, v + off) val st1))"
| "set_operand_value (Address label v) val st = (Completed, memory_set (label, v) val st)"
| "set_operand_value (Register r) val st = (Completed, registers_set r val st)"
| "set_operand_value (Constant v) val st = (Raised (OperandIsNotWriteable v), st)"
| "set_operand_value (Label l v) val st = (Raised (OperandIsNotWriteable v), st)"

fun is_memory_operand :: "operand \<Rightarrow> bool" where
  "is_memory_operand (Address _ _) = True"
| "is_memory_operand (IndirectAddress _ _ _) = True"
| "is_memory_operand _ = False"

fun is_register_operand :: "operand \<Rightarrow> bool" where
  "is_register_operand (Register _) = True"
| "is_register_operand _ = False"

definition same_bus :: "operand \<Rightarrow> operand \<Rightarrow> bool" where
  "same_bus op1 op2 =
     ((is_memory_operand op1 \<and> is_memory_operand op2) \<or>
      (is_register_operand op1 \<and> is_register_operand op2))"

section \<open>Instruction handlers\<close>

text \<open>
  The handlers that consume cycles are generators that suspend after each clock tick, and
  \<^verbatim>\<open>execute\<close> hands their suspension points on to the driver; the jump handlers are plain
  methods. The model is the handler run to its end by a driver that resumes it after every
  suspension: the state when it returns (\<open>Completed\<close>) or when an exception leaves it
  (\<open>Raised\<close>). Each \<^verbatim>\<open>self.clock.tick()\<close> of the source is followed by one \<^verbatim>\<open>yield\<close>,
  so \<open>ticks\<close> also counts the suspension points.
\<close>

text \<open>
  \<^verbatim>\<open>_jump_to\<close> reads \<^verbatim>\<open>label.value\<close>. Modelled from the spec: every operand class but the
  register carries a value, so a register as jump target raises \<^verbatim>\<open>AttributeError\<close>.
\<close>

fun operand_value :: "operand \<Rightarrow> int option" where
  "operand_value (Constant v) = Some v"
| "operand_value (Register r) = None"
| "operand_value (Address l v) = Some v"
| "operand_value (IndirectAddress l v offset) = Some v"
| "operand_value (Label l v) = Some v"

definition jump_to :: "operand \<Rightarrow> machine \<Rightarrow> outcome \<times> machine" where
  "jump_to label st =
     (case operand_value label of
        None \<Rightarrow> (Raised AttributeError, st)
      | Some v \<Rightarrow> (Completed, set_instruction_pointer (v - 1) st))"

definition reduce_op ::
  "(int \<Rightarrow> int \<Rightarrow> int option) \<Rightarrow> operand \<Rightarrow> operand list \<Rightarrow> machine \<Rightarrow> outcome \<times> machine" where
  "reduce_op reducer dest operands' st =
     (case operands' of
        [] \<Rightarrow> (Raised IndexError, st)
      | operand # _ \<Rightarrow>
          (case get_operand_value dest st of (op1, st1) \<Rightarrow>
           (case get_operand_value operand (if same_bus dest operand then clock_tick st1 else st1) of
              (op2, st2) \<Rightarrow>
           (case alu_operation reducer op1 op2 (clock_tick st2) of
              (Inl e, st3) \<Rightarrow> (Raised e, st3)
            | (Inr result, st3) \<Rightarrow> set_operand_value dest result (clock_tick st3)))))"

definition jmp_if :: "operand \<Rightarrow> bool \<Rightarrow> machine \<Rightarrow> outcome \<times> machine" where
  "jmp_if label condition st = (if condition then jump_to label st else (Completed, st))"

definition i_add :: "operand \<Rightarrow> operand list \<Rightarrow> machine \<Rightarrow> outcome \<times> machine" where
  "i_add dest ops st = reduce_op operator_add dest ops st"

definition i_sub :: "operand \<Rightarrow> operand list \<Rightarrow> machine \<Rightarrow> outcome \<times> machine" where
  "i_sub dest ops st = reduce_op operator_sub dest ops st"

definition i_mul :: "operand \<Rightarrow> operand list \<Rightarrow> machine \<Rightarrow> outcome \<times> machine" where
  "i_mul dest ops st = reduce_op operator_mul dest ops st"

definition i_div :: "operand \<Rightarrow> operand list \<Rightarrow> machine \<Rightarrow> outcome \<times> machine" where
  "i_div dest ops st = reduce_op operator_floordiv dest ops st"

definition i_mod :: "operand \<Rightarrow> operand list \<Rightarrow> machine \<Rightarrow> outcome \<times> machine" where
  "i_mod dest ops st = reduce_op operator_mod dest ops st"

definition i_xor :: "operand \<Rightarrow> operand list \<Rightarrow> machine \<Rightarrow> outcome \<times> machine" where
  "i_xor dest ops st = reduce_op operator_xor dest ops st"

definition i_and :: "operand \<Rightarrow> operand list \<Rightarrow> machine \<Rightarrow> outcome \<times> machine" where
  "i_and dest ops st = reduce_op operator_and dest ops st"

definition i_or :: "operand \<Rightarrow> operand list \<Rightarrow> machine \<Rightarrow> outcome \<times> machine" where
  "i_or dest ops st = reduce_op operator_or dest ops st"

definition i_dec :: "operand \<Rightarrow> machine \<Rightarrow> outcome \<times> machine" where
  "i_dec dest st =
     (case get_operand_value dest st of
        (v, st1) \<Rightarrow> set_operand_value dest (v - 1) (clock_tick st1))"

definition i_inc :: "operand \<Rightarrow> machine \<Rightarrow> outcome \<times> machine" where
  "i_inc dest st =
     (case get_operand_value dest st of
        (v, st1) \<Rightarrow> set_operand_value dest (v + 1) (clock_tick st1))"

definition i_jmp :: "operand \<Rightarrow> machine \<Rightarrow> outcome \<times> machine" where
  "i_jmp label st = jump_to label st"

definition i_je :: "operand \<Rightarrow> machine \<Rightarrow> outcome \<times> machine" where
  "i_je label st = jmp_if label (get_flag Z st) st"

definition i_jne :: "operand \<Rightarrow> machine \<Rightarrow> outcome \<times> machine" where
  "i_jne label st = jmp_if label (\<not> get_flag Z st) st"

definition i_jl :: "operand \<Rightarrow> machine \<Rightarrow> outcome \<times> machine" where
  "i_jl label st = jmp_if label (get_flag N st) st"

definition i_jg :: "operand \<Rightarrow> machine \<Rightarrow> outcome \<times> machine" where
  "i_jg label st = jmp_if label (\<not> get_flag N st) st"

definition i_jle :: "operand \<Rightarrow> machine \<Rightarrow> outcome \<times> machine" where
  "i_jle label st = jmp_if label (get_flag Z st \<or> get_flag N st) st"

definition i_jge :: "operand \<Rightarrow> machine \<Rightarrow> outcome \<times> machine" where
  "i_jge label st = jmp_if label (get_flag Z st \<or> \<not> get_flag N st) st"

definition i_mov :: "operand \<Rightarrow> operand \<Rightarrow> machine \<Rightarrow> outcome \<times> machine" where
  "i_mov dest src st =
     (case get_operand_value src st of
        (v, st1) \<Rightarrow> set_operand_value dest v (clock_tick st1))"

text \<open>The \<^verbatim>\<open>for digit in str(value)\<close> loop of \<^verbatim>\<open>i_movn\<close>.\<close>

fun movn_loop :: "operand \<Rightarrow> string \<Rightarrow> machine \<Rightarrow> outcome \<times> machine" where
  "movn_loop dest [] st = (Completed, st)"
| "movn_loop dest (digit # rest) st =
     (case set_operand_value dest (ord digit) st of
        (Raised e, st1) \<Rightarrow> (Raised e, st1)
      | (Completed, st1) \<Rightarrow> movn_loop dest rest (clock_tick st1))"

text \<open>
  \<^verbatim>\<open>i_movn\<close>: \<^verbatim>\<open>str(value)\<close> is evaluated after the first tick, so its \<^verbatim>\<open>ValueError\<close>
  comes one cycle into the handler.
\<close>

definition i_movn :: "platform \<Rightarrow> operand \<Rightarrow> operand \<Rightarrow> machine \<Rightarrow> outcome \<times> machine" where
  "i_movn env dest src st =
     (case get_operand_value src st of
        (v, st1) \<Rightarrow>
          (case py_str env v of
             None \<Rightarrow> (Raised ValueError, clock_tick st1)
           | Some s \<Rightarrow> movn_loop dest s (clock_tick st1)))"

text \<open>
  The \<^verbatim>\<open>while (digit := self.get_operand_value(src)) != NULL_TERM\<close> loop of \<^verbatim>\<open>i_ldn\<close>. It
  need not end (a source that never yields the terminator), so it is a partial function:
  \<open>None\<close> means that the loop runs forever. Its result is the accumulated string, or the
  exception of \<^verbatim>\<open>chr\<close>.
\<close>

partial_function (option) ldn_loop ::
  "int \<Rightarrow> operand \<Rightarrow> int list \<Rightarrow> machine \<Rightarrow> ((error + int list) \<times> machine) option" where
  "ldn_loop null_term src result st =
     (case get_operand_value src st of
        (digit, st1) \<Rightarrow>
          if digit \<noteq> null_term then
            (case chr digit of
               Inl e \<Rightarrow> Some (Inl e, st1)
             | Inr c \<Rightarrow> ldn_loop null_term src (result @ [c]) (clock_tick st1))
          else Some (Inr result, st1))"

definition i_ldn :: "platform \<Rightarrow> operand \<Rightarrow> operand \<Rightarrow> machine \<Rightarrow> (outcome \<times> machine) option" where
  "i_ldn env dest src st =
     (case ldn_loop (NULL_TERM env) src [] st of
        None \<Rightarrow> None
      | Some (Inl e, st1) \<Rightarrow> Some (Raised e, st1)
      | Some (Inr result, st1) \<Rightarrow>
          (case py_int env result of
             None \<Rightarrow> Some (Raised ValueError, st1)
           | Some n \<Rightarrow> Some (set_operand_value dest n st1)))"

definition i_cmp :: "operand \<Rightarrow> operand \<Rightarrow> machine \<Rightarrow> outcome \<times> machine" where
  "i_cmp var src st =
     (case get_operand_value var st of (op1, st1) \<Rightarrow>
      (case get_operand_value src (if same_bus var src then clock_tick st1 else st1) of
         (op2, st2) \<Rightarrow>
      (case alu_operation operator_sub op1 op2 (clock_tick st2) of
         (Inl e, st3) \<Rightarrow> (Raised e, st3)
       | (Inr result, st3) \<Rightarrow> (Completed, st3))))"

definition i_hlt :: "machine \<Rightarrow> outcome \<times> machine" where
  "i_hlt st = (Raised ProgramExit, clock_tick st)"

section \<open>Dispatch\<close>

text \<open>
  A handler is called as \<^verbatim>\<open>handler(self, *instruction.operands)\<close>: Python raises
  \<^verbatim>\<open>TypeError\<close> when the number of operands does not fit the handler's parameters.
\<close>

type_synonym handler = "operand list \<Rightarrow> machine \<Rightarrow> (outcome \<times> machine) option"

definition call0 :: "(machine \<Rightarrow> outcome \<times> machine) \<Rightarrow> handler" where
  "call0 h ops st = (case ops of [] \<Rightarrow> Some (h st) | _ \<Rightarrow> Some (Raised TypeError, st))"

definition call1 :: "(operand \<Rightarrow> machine \<Rightarrow> outcome \<times> machine) \<Rightarrow> handler" where
  "call1 h ops st = (case ops of [a] \<Rightarrow> Some (h a st) | _ \<Rightarrow> Some (Raised TypeError, st))"

definition call2 :: "(operand \<Rightarrow> operand \<Rightarrow> machine \<Rightarrow> outcome \<times> machine) \<Rightarrow> handler" where
  "call2 h ops st = (case ops of [a, b] \<Rightarrow> Some (h a b st) | _ \<Rightarrow> Some (Raised TypeError, st))"

definition call2_partial ::
  "(operand \<Rightarrow> operand \<Rightarrow> machine \<Rightarrow> (outcome \<times> machine) option) \<Rightarrow> handler" where
  "call2_partial h ops st = (case ops of [a, b] \<Rightarrow> h a b st | _ \<Rightarrow> Some (Raised TypeError, st))"

definition call_varargs ::
  "(operand \<Rightarrow> operand list \<Rightarrow> machine \<Rightarrow> outcome \<times> machine) \<Rightarrow> handler" where
  "call_varargs h ops st =
     (case ops of [] \<Rightarrow> Some (Raised TypeError, st) | dest # rest \<Rightarrow> Some (h dest rest st))"

text \<open>\<^verbatim>\<open>get_all\<close>: the handlers by name, the methods \<^verbatim>\<open>i_<name>\<close> of the class.\<close>

definition get_all :: "platform \<Rightarrow> (string \<times> handler) list" where
  "get_all env =
     [(''add'', call_varargs i_add), (''sub'', call_varargs i_sub),
      (''mul'', call_varargs i_mul), (''div'', call_varargs i_div),
      (''mod'', call_varargs i_mod), (''xor'', call_varargs i_xor),
      (''and'', call_varargs i_and), (''or'', call_varargs i_or),
      (''dec'', call1 i_dec), (''inc'', call1 i_inc),
      (''jmp'', call1 i_jmp), (''je'', call1 i_je), (''jne'', call1 i_jne),
      (''jl'', call1 i_jl), (''jg'', call1 i_jg), (''jle'', call1 i_jle),
      (''jge'', call1 i_jge),
      (''mov'', call2 i_mov), (''movn'', call2 (i_movn env)),
      (''ldn'', call2_partial (i_ldn env)), (''cmp'', call2 i_cmp),
      (''hlt'', call0 i_hlt)]"

text \<open>\<^verbatim>\<open>__execute\<close>: look the handler up (\<^verbatim>\<open>KeyError\<close> for an unknown name) and run it.\<close>

definition execute_handler :: "platform \<Rightarrow> instruction \<Rightarrow> machine \<Rightarrow> (outcome \<times> machine) option" where
  "execute_handler env instruction st =
     (case map_of (get_all env) (name instruction) of
        None \<Rightarrow> Some (Raised (KeyError (name instruction)), st)
      | Some h \<Rightarrow> h (operands instruction) st)"

text \<open>The \<^verbatim>\<open>for sub_instruction in self.current.sub\<close> loop of \<^verbatim>\<open>execute\<close>.\<close>

fun execute_subs :: "platform \<Rightarrow> instruction list \<Rightarrow> machine \<Rightarrow> (outcome \<times> machine) option" where
  "execute_subs env [] st = Some (Completed, st)"
| "execute_subs env (sub_instruction # rest) st =
     (case execute_handler env sub_instruction (st\<lparr>current_sub := Some sub_instruction\<rparr>) of
        None \<Rightarrow> None
      | Some (Raised e, st1) \<Rightarrow> Some (Raised e, st1)
      | Some (Completed, st1) \<Rightarrow> execute_subs env rest st1)"

text \<open>
  The body of \<^verbatim>\<open>execute\<close> up to the handlers' return (lines 429 to 441 of the source), and
  \<^verbatim>\<open>execute\<close> itself. The statements after the body are reached only when the body
  returns: the source has no \<^verbatim>\<open>try\<close>, so an exception of a handler leaves \<^verbatim>\<open>execute\<close>
  at once.
\<close>

definition execute_body :: "platform \<Rightarrow> instruction \<Rightarrow> machine \<Rightarrow> (outcome \<times> machine) option" where
  "execute_body env instruction st =
     (let st0 = st\<lparr>current := Some instruction, current_sub := None\<rparr>
      in if sub instruction \<noteq> [] then execute_subs env (sub instruction) st0
         else execute_handler env instruction st0)"

definition execute :: "platform \<Rightarrow> instruction \<Rightarrow> machine \<Rightarrow> (outcome \<times> machine) option" where
  "execute env instruction st =
     (case execute_body env instruction st of
        None \<Rightarrow> None
      | Some (Raised e, st1) \<Rightarrow> Some (Raised e, st1)
      | Some (Completed, st1) \<Rightarrow>
          Some (Completed,
            clock_inst (clock_tick
              (set_instruction_pointer (get_instruction_pointer st1 + 1) st1))))"

section \<open>Notions used to state the properties\<close>

text \<open>The names of the reduction instructions, the set \<^verbatim>\<open>__reduce_ops__\<close> of the class.\<close>

definition reduce_ops :: "string list" where
  "reduce_ops = [''add'', ''sub'', ''mul'', ''div'', ''mod'', ''xor'', ''and'', ''or'']"

text \<open>
  The reducer of each reduction instruction as the specification names it: add, subtract,
  multiply, floor-divide, modulo, xor, and, or.
\<close>

definition spec_reducer :: "string \<Rightarrow> int \<Rightarrow> int \<Rightarrow> int" where
  "spec_reducer n a b =
     (if n = ''add'' then a + b
      else if n = ''sub'' then a - b
      else if n = ''mul'' then a * b
      else if n = ''div'' then a div b
      else if n = ''mod'' then a mod b
      else if n = ''xor'' then a XOR b
      else if n = ''and'' then a AND b
      else a OR b)"

definition jump_names :: "string list" where
  "jump_names = [''jmp'', ''je'', ''jne'', ''jl'', ''jg'', ''jle'', ''jge'']"

text \<open>The condition table of the jump family, as the specification gives it.\<close>

definition spec_jump_condition :: "string \<Rightarrow> bool \<Rightarrow> bool \<Rightarrow> bool" where
  "spec_jump_condition n z ng =
     (if n = ''jmp'' then True
      else if n = ''je'' then z
      else if n = ''jne'' then \<not> z
      else if n = ''jl'' then ng
      else if n = ''jg'' then \<not> ng
      else if n = ''jle'' then (z \<or> ng)
      else (z \<or> \<not> ng))"





text \<open>The number that a string of decimal digit codes denotes, most significant digit first.\<close>

definition decimal_value :: "int list \<Rightarrow> int" where
  "decimal_value cs = foldl (\<lambda>a c. 10 * a + (c - 48)) 0 cs"

text \<open>Operands that \<^verbatim>\<open>set_operand_value\<close> accepts.\<close>

fun writeable :: "operand \<Rightarrow> bool" where
  "writeable (Constant _) = False"
| "writeable (Label _ _) = False"
| "writeable _ = True"

text \<open>
  \<open>reads_only m m'\<close>: the memory controller \<open>m'\<close> is \<open>m\<close> after some reads and no write.
\<close>

inductive reads_only :: "memory_controller \<Rightarrow> memory_controller \<Rightarrow> bool" where
  reads_only_refl: "reads_only m m"
| reads_only_get: "reads_only m m' \<Longrightarrow> reads_only m (mem_after_get m' a)"

code_pred reads_only .

text \<open>
  \<open>read_chars src k st\<close>: what \<open>k\<close> successive resolutions of the operand \<open>src\<close> yield, one
  clock tick after each, and the state after them.
\<close>

fun read_chars :: "operand \<Rightarrow> nat \<Rightarrow> machine \<Rightarrow> int list \<times> machine" where
  "read_chars src 0 st = ([], st)"
| "read_chars src (Suc k) st =
     (case get_operand_value src st of
        (c, st1) \<Rightarrow>
          (case read_chars src k (clock_tick st1) of (cs, st2) \<Rightarrow> (c # cs, st2)))"

section \<open>Concrete collaborators\<close>

text \<open>
  Two memory controllers on which the handlers can be run: \<open>store\<close> is plain data memory,
  \<open>console\<close> a character device whose reads take the next code of an input stream (0 once
  it is exhausted) and whose writes append to an output stream.
\<close>

primcorec store :: "(string \<times> int \<Rightarrow> int) \<Rightarrow> memory_controller" where
  "store cells = MemoryController cells (\<lambda>a. store cells) (\<lambda>a v. store (cells(a := v)))"

primcorec console :: "int list \<Rightarrow> int list \<Rightarrow> memory_controller" where
  "console input output =
     MemoryController
       (\<lambda>a. case input of [] \<Rightarrow> 0 | c # _ \<Rightarrow> c)
       (\<lambda>a. console (tl input) output)
       (\<lambda>a v. console input (output @ [v]))"

definition machine0 :: "memory_controller \<Rightarrow> machine" where
  "machine0 m =
     \<lparr>current = None, current_sub = None, ticks = 0, instructions = 0,
      flags = (\<lambda>_. False), memory = m, registers = (\<lambda>_. 0), instruction_pointer = 0\<rparr>"

definition env0 :: platform where
  "env0 =
     \<lparr>NULL_TERM = 0, int_max_str_digits = 4300,
      unicode_space = (\<lambda>_. False), unicode_decimal = (\<lambda>_. None)\<rparr>"

definition cells0 :: "string \<times> int \<Rightarrow> int" where
  "cells0 = (\<lambda>_. 0)"

definition empty_store :: memory_controller where
  "empty_store = store cells0"

text \<open>
  Two relations between the state before a handler and the state after it.
  \<open>advances\<close>: the clock did not go back, no instruction was counted, the instruction
  pointer is where it was. \<open>handler_effect n\<close>: the same, the pointer left free for the
  handlers of the jump family.
\<close>

definition advances :: "machine \<Rightarrow> machine \<Rightarrow> bool" where
  "advances st st' =
     (ticks st \<le> ticks st' \<and> instructions st' = instructions st \<and>
      instruction_pointer st' = instruction_pointer st)"

definition handler_effect :: "string \<Rightarrow> machine \<Rightarrow> machine \<Rightarrow> bool" where
  "handler_effect n st st' =
     (ticks st \<le> ticks st' \<and> instructions st' = instructions st \<and>
      (n \<notin> set jump_names \<longrightarrow> instruction_pointer st' = instruction_pointer st))"

section \<open>What the operand resolver changes\<close>

lemma get_operand_value_frame:
  "get_operand_value op st = (v, st') \<Longrightarrow>
     ticks st' = ticks st \<and> instructions st' = instructions st \<and> flags st' = flags st \<and>
     registers st' = registers st \<and> instruction_pointer st' = instruction_pointer st \<and>
     current st' = current st \<and> current_sub st' = current_sub st"
  by (induction op arbitrary: st v st')
     (auto simp: memory_get_def registers_get_def split: prod.splits)

lemma get_operand_value_tick:
  "get_operand_value op (clock_tick st) =
     (case get_operand_value op st of (v, st') \<Rightarrow> (v, clock_tick st'))"
  by (induction op arbitrary: st)
     (auto simp: memory_get_def registers_get_def clock_tick_def split: prod.splits)

lemma set_operand_value_frame:
  "set_operand_value op val st = (out, st') \<Longrightarrow>
     ticks st' = ticks st \<and> instructions st' = instructions st \<and> flags st' = flags st \<and>
     instruction_pointer st' = instruction_pointer st \<and>
     current st' = current st \<and> current_sub st' = current_sub st"
  by (cases op)
     (auto simp: memory_set_def registers_set_def dest!: get_operand_value_frame split: prod.splits)

lemma set_operand_value_tick:
  "set_operand_value op val (clock_tick st) =
     (case set_operand_value op val st of (out, st') \<Rightarrow> (out, clock_tick st'))"
proof (cases op)
  case (IndirectAddress l a offset)
  then show ?thesis
    by (simp add: get_operand_value_tick split: prod.splits)
       (simp add: memory_set_def clock_tick_def)
qed (simp_all add: memory_set_def registers_set_def clock_tick_def)

section \<open>What the handlers do to the clock and to the instruction pointer\<close>

lemma get_operand_value_fields [simp]:
  "ticks (snd (get_operand_value op st)) = ticks st"
  "instructions (snd (get_operand_value op st)) = instructions st"
  "flags (snd (get_operand_value op st)) = flags st"
  "registers (snd (get_operand_value op st)) = registers st"
  "instruction_pointer (snd (get_operand_value op st)) = instruction_pointer st"
  "current (snd (get_operand_value op st)) = current st"
  "current_sub (snd (get_operand_value op st)) = current_sub st"
  using get_operand_value_frame [of op st "fst (get_operand_value op st)" "snd (get_operand_value op st)"]
  by simp_all

lemma set_operand_value_fields [simp]:
  "ticks (snd (set_operand_value op val st)) = ticks st"
  "instructions (snd (set_operand_value op val st)) = instructions st"
  "flags (snd (set_operand_value op val st)) = flags st"
  "instruction_pointer (snd (set_operand_value op val st)) = instruction_pointer st"
  "current (snd (set_operand_value op val st)) = current st"
  "current_sub (snd (set_operand_value op val st)) = current_sub st"
  using set_operand_value_frame [of op val st "fst (set_operand_value op val st)" "snd (set_operand_value op val st)"]
  by simp_all

lemma advances_reduce_op: "advances st (snd (reduce_op reducer dest ops st))"
  by (simp add: advances_def reduce_op_def alu_operation_def clock_tick_def split_def
      split: list.splits option.splits)

lemma advances_i_dec: "advances st (snd (i_dec dest st))"
  by (simp add: advances_def i_dec_def clock_tick_def split_def)

lemma advances_i_inc: "advances st (snd (i_inc dest st))"
  by (simp add: advances_def i_inc_def clock_tick_def split_def)

lemma advances_i_mov: "advances st (snd (i_mov dest src st))"
  by (simp add: advances_def i_mov_def clock_tick_def split_def)

lemma advances_i_cmp: "advances st (snd (i_cmp var src st))"
  by (simp add: advances_def i_cmp_def alu_operation_def operator_sub_def clock_tick_def split_def)

lemma advances_i_hlt: "advances st (snd (i_hlt st))"
  by (simp add: advances_def i_hlt_def clock_tick_def)

lemma advances_movn_loop: "advances st (snd (movn_loop dest s st))"
proof (induction s arbitrary: st)
  case Nil
  show ?case by (simp add: advances_def)
next
  case (Cons c s)
  obtain out st1 where w: "set_operand_value dest (ord c) st = (out, st1)"
    by (cases "set_operand_value dest (ord c) st")
  note f = set_operand_value_frame [OF w]
  show ?case
  proof (cases out)
    case Completed
    with w f Cons [of "clock_tick st1"] show ?thesis
      by (simp add: advances_def clock_tick_def)
  next
    case (Raised e)
    with w f show ?thesis
      by (simp add: advances_def)
  qed
qed

lemma advances_i_movn: "advances st (snd (i_movn env dest src st))"
proof (cases "py_str env (fst (get_operand_value src st))")
  case None
  then show ?thesis
    by (simp add: advances_def i_movn_def clock_tick_def split_def)
next
  case (Some s)
  with advances_movn_loop [of "clock_tick (snd (get_operand_value src st))" dest s]
  show ?thesis
    by (simp add: advances_def i_movn_def clock_tick_def split_def)
qed

lemma advances_ldn_loop:
  assumes "ldn_loop nt src acc st = Some r"
  shows "advances st (snd r)"
proof (rule ldn_loop.raw_induct [where P = "\<lambda>nt src acc st r. advances st (snd r)", OF _ assms],
    goal_cases)
  case (1 loop nt src acc st r)
  show ?case
  proof (cases "fst (get_operand_value src st) \<noteq> nt")
    case False
    with 1(2) show ?thesis
      by (auto simp: advances_def split_def)
  next
    case True
    show ?thesis
    proof (cases "chr (fst (get_operand_value src st))")
      case (Inl e)
      with True 1(2) show ?thesis
        by (auto simp: advances_def split_def)
    next
      case (Inr c)
      with True 1(2) have
        "loop nt src (acc @ [c]) (clock_tick (snd (get_operand_value src st))) = Some r"
        by (simp add: split_def)
      from 1(1) [OF this] show ?thesis
        by (simp add: advances_def clock_tick_def)
    qed
  qed
qed

lemma advances_i_ldn: "i_ldn env dest src st = Some r \<Longrightarrow> advances st (snd r)"
  unfolding i_ldn_def
  by (auto simp: advances_def split: option.splits sum.splits prod.splits
      dest!: advances_ldn_loop)


lemma jump_to_fields:
  "ticks (snd (jump_to label st)) = ticks st"
  "instructions (snd (jump_to label st)) = instructions st"
  by (simp_all add: jump_to_def set_instruction_pointer_def split: option.splits)

lemma jmp_if_fields:
  "ticks (snd (jmp_if label c st)) = ticks st"
  "instructions (snd (jmp_if label c st)) = instructions st"
  by (simp_all add: jmp_if_def jump_to_fields)

lemma call0_cases: "call0 h ops st = Some r \<Longrightarrow> r = h st \<or> snd r = st"
  by (auto simp: call0_def split: list.splits)

lemma call1_cases: "call1 h ops st = Some r \<Longrightarrow> (\<exists>a. r = h a st) \<or> snd r = st"
  by (auto simp: call1_def split: list.splits)

lemma call2_cases: "call2 h ops st = Some r \<Longrightarrow> (\<exists>a b. r = h a b st) \<or> snd r = st"
  by (auto simp: call2_def split: list.splits)

lemma call2_partial_cases:
  "call2_partial h ops st = Some r \<Longrightarrow> (\<exists>a b. h a b st = Some r) \<or> snd r = st"
  by (auto simp: call2_partial_def split: list.splits)

lemma call_varargs_cases:
  "call_varargs h ops st = Some r \<Longrightarrow> (\<exists>dest rest. r = h dest rest st) \<or> snd r = st"
  by (auto simp: call_varargs_def split: list.splits)

lemma handler_effect_refl [simp]: "handler_effect n st st"
  by (simp add: handler_effect_def)

lemma advances_handler_effect: "advances st st' \<Longrightarrow> handler_effect n st st'"
  by (simp add: handler_effect_def advances_def)

lemma jump_handler_effect: "handler_effect ''jmp'' st (snd (jmp_if label c st))"
  "handler_effect ''je'' st (snd (jmp_if label c st))"
  "handler_effect ''jne'' st (snd (jmp_if label c st))"
  "handler_effect ''jl'' st (snd (jmp_if label c st))"
  "handler_effect ''jg'' st (snd (jmp_if label c st))"
  "handler_effect ''jle'' st (snd (jmp_if label c st))"
  "handler_effect ''jge'' st (snd (jmp_if label c st))"
  by (simp_all add: handler_effect_def jmp_if_fields jump_names_def)

lemmas handler_effects =
  advances_handler_effect [OF advances_reduce_op] advances_handler_effect [OF advances_i_dec]
  advances_handler_effect [OF advances_i_inc] advances_handler_effect [OF advances_i_mov]
  advances_handler_effect [OF advances_i_movn] advances_handler_effect [OF advances_i_cmp]
  advances_handler_effect [OF advances_i_hlt] jump_handler_effect
  jump_handler_effect(1) [where c = True, unfolded jmp_if_def, simplified]

lemma get_all_effect:
  "\<forall>(n, h) \<in> set (get_all env). \<forall>ops st r. h ops st = Some r \<longrightarrow> handler_effect n st (snd r)"
  unfolding get_all_def
  apply (simp only: list.set ball_simps prod.case)
  apply (intro conjI allI impI)
  apply (auto dest!: call0_cases call1_cases call2_cases call2_partial_cases call_varargs_cases
        advances_handler_effect [OF advances_i_ldn]
      simp: i_add_def i_sub_def i_mul_def i_div_def i_mod_def i_xor_def i_and_def i_or_def
        i_jmp_def i_je_def i_jne_def i_jl_def i_jg_def i_jle_def i_jge_def handler_effects)
  done


lemma execute_handler_effect:
  assumes "execute_handler env i st = Some r"
  shows "handler_effect (name i) st (snd r)"
proof (cases "map_of (get_all env) (name i)")
  case None
  with assms show ?thesis
    by (auto simp: execute_handler_def)
next
  case (Some h)
  then have "(name i, h) \<in> set (get_all env)"
    by (rule map_of_SomeD)
  moreover from Some assms have "h (operands i) st = Some r"
    by (simp add: execute_handler_def)
  ultimately show ?thesis
    using get_all_effect [of env] by blast
qed

lemma execute_subs_clock:
  "execute_subs env subs st = Some r \<Longrightarrow>
     ticks st \<le> ticks (snd r) \<and> instructions (snd r) = instructions st"
proof (induction subs arbitrary: st)
  case Nil
  then show ?case by auto
next
  case (Cons s subs)
  let ?st = "st\<lparr>current_sub := Some s\<rparr>"
  from Cons.prems obtain out st1 where h: "execute_handler env s ?st = Some (out, st1)"
    by (auto split: option.splits)
  from execute_handler_effect [OF h]
  have e: "ticks st \<le> ticks st1" "instructions st1 = instructions st"
    by (simp_all add: handler_effect_def)
  show ?case
  proof (cases out)
    case Completed
    with Cons.prems h have "execute_subs env subs st1 = Some r" by simp
    from Cons.IH [OF this] e show ?thesis by simp
  next
    case (Raised x)
    with Cons.prems h e show ?thesis by auto
  qed
qed

lemma execute_subs_pointer:
  "execute_subs env subs st = Some r \<Longrightarrow> \<forall>s \<in> set subs. name s \<notin> set jump_names \<Longrightarrow>
     instruction_pointer (snd r) = instruction_pointer st"
proof (induction subs arbitrary: st)
  case Nil
  then show ?case by auto
next
  case (Cons s subs)
  let ?st = "st\<lparr>current_sub := Some s\<rparr>"
  from Cons.prems obtain out st1 where h: "execute_handler env s ?st = Some (out, st1)"
    by (auto split: option.splits)
  from execute_handler_effect [OF h] Cons.prems(2)
  have e: "instruction_pointer st1 = instruction_pointer st"
    by (simp add: handler_effect_def)
  show ?case
  proof (cases out)
    case Completed
    with Cons.prems h have "execute_subs env subs st1 = Some r" by simp
    from Cons.IH [OF this] Cons.prems(2) e show ?thesis by simp
  next
    case (Raised x)
    with Cons.prems h e show ?thesis by auto
  qed
qed

lemma execute_body_clock:
  assumes "execute_body env i st = Some r"
  shows "ticks st \<le> ticks (snd r) \<and> instructions (snd r) = instructions st"
proof (cases "sub i = []")
  case True
  with assms execute_handler_effect [of env i "st\<lparr>current := Some i, current_sub := None\<rparr>" r]
  show ?thesis
    by (simp add: execute_body_def handler_effect_def)
next
  case False
  with assms execute_subs_clock [of env "sub i" "st\<lparr>current := Some i, current_sub := None\<rparr>" r]
  show ?thesis
    by (simp add: execute_body_def)
qed

lemma execute_body_pointer:
  assumes "execute_body env i st = Some r"
    and "name i \<notin> set jump_names" and "\<forall>s \<in> set (sub i). name s \<notin> set jump_names"
  shows "instruction_pointer (snd r) = instruction_pointer st"
proof (cases "sub i = []")
  case True
  with assms execute_handler_effect [of env i "st\<lparr>current := Some i, current_sub := None\<rparr>" r]
  show ?thesis
    by (simp add: execute_body_def handler_effect_def)
next
  case False
  with assms execute_subs_pointer [of env "sub i" "st\<lparr>current := Some i, current_sub := None\<rparr>" r]
  show ?thesis
    by (simp add: execute_body_def)
qed

lemma get_all_returns:
  "\<forall>(n, h) \<in> set (get_all env). n \<noteq> ''ldn'' \<longrightarrow> (\<forall>ops st. h ops st \<noteq> None)"
  unfolding get_all_def
  by (simp add: call0_def call1_def call2_def call_varargs_def split: list.splits)

lemma execute_handler_returns:
  assumes "name i \<noteq> ''ldn''"
  shows "execute_handler env i st \<noteq> None"
proof (cases "map_of (get_all env) (name i)")
  case None
  then show ?thesis by (simp add: execute_handler_def)
next
  case (Some h)
  then have "(name i, h) \<in> set (get_all env)"
    by (rule map_of_SomeD)
  with assms get_all_returns [of env] have "h (operands i) st \<noteq> None"
    by blast
  with Some show ?thesis by (simp add: execute_handler_def)
qed

lemma execute_subs_returns:
  "\<forall>s \<in> set subs. name s \<noteq> ''ldn'' \<Longrightarrow> execute_subs env subs st \<noteq> None"
proof (induction subs arbitrary: st)
  case Nil
  show ?case by simp
next
  case (Cons s subs)
  then have "execute_handler env s (st\<lparr>current_sub := Some s\<rparr>) \<noteq> None"
    by (simp add: execute_handler_returns)
  with Cons show ?case
    by (auto split: option.splits outcome.splits)
qed

lemma execute_body_returns:
  assumes "name i \<noteq> ''ldn''" and "\<forall>s \<in> set (sub i). name s \<noteq> ''ldn''"
  shows "execute_body env i st \<noteq> None"
  using assms execute_handler_returns [of i env "st\<lparr>current := Some i, current_sub := None\<rparr>"]
    execute_subs_returns [of "sub i" env "st\<lparr>current := Some i, current_sub := None\<rparr>"]
  by (simp add: execute_body_def Let_def)

section \<open>The reduction handlers and the jumps\<close>

lemma reduce_op_Cons:
  assumes "get_operand_value dest st = (v1, st1)" and "get_operand_value src st1 = (v2, st2)"
  shows "reduce_op reducer dest (src # rest) st =
     (case reducer v1 v2 of
        None \<Rightarrow>
          (Raised ALUDZeroDivisionError,
           st2\<lparr>ticks := ticks st + (if same_bus dest src then 2 else 1)\<rparr>)
      | Some r \<Rightarrow>
          set_operand_value dest r
            (st2\<lparr>flags := (\<lambda>f. case f of Z \<Rightarrow> r = 0 | N \<Rightarrow> r < 0),
                 ticks := ticks st + (if same_bus dest src then 3 else 2)\<rparr>))"
proof -
  from get_operand_value_frame [OF assms(1)] get_operand_value_frame [OF assms(2)]
  have t: "ticks st2 = ticks st" by simp
  show ?thesis
    using assms t
    by (simp add: reduce_op_def get_operand_value_tick alu_operation_def split: option.splits)
       (simp add: clock_tick_def eval_nat_numeral)
qed

lemma reduce_op_rest: "reduce_op reducer dest (src # rest) st = reduce_op reducer dest [src] st"
  by (simp add: reduce_op_def)

lemma reduce_handlers:
  "i_add = reduce_op operator_add" "i_sub = reduce_op operator_sub"
  "i_mul = reduce_op operator_mul" "i_div = reduce_op operator_floordiv"
  "i_mod = reduce_op operator_mod" "i_xor = reduce_op operator_xor"
  "i_and = reduce_op operator_and" "i_or = reduce_op operator_or"
  by (simp_all add: fun_eq_iff i_add_def i_sub_def i_mul_def
      i_div_def i_mod_def i_xor_def i_and_def i_or_def)

lemma reducer_of_name:
  "map_of (get_all env) ''add'' = Some (call_varargs (reduce_op operator_add))"
  "map_of (get_all env) ''sub'' = Some (call_varargs (reduce_op operator_sub))"
  "map_of (get_all env) ''mul'' = Some (call_varargs (reduce_op operator_mul))"
  "map_of (get_all env) ''div'' = Some (call_varargs (reduce_op operator_floordiv))"
  "map_of (get_all env) ''mod'' = Some (call_varargs (reduce_op operator_mod))"
  "map_of (get_all env) ''xor'' = Some (call_varargs (reduce_op operator_xor))"
  "map_of (get_all env) ''and'' = Some (call_varargs (reduce_op operator_and))"
  "map_of (get_all env) ''or'' = Some (call_varargs (reduce_op operator_or))"
  unfolding reduce_handlers [symmetric] by (simp_all add: get_all_def)

lemma reduce_ops_handler:
  assumes "n \<in> set reduce_ops"
  shows "\<exists>reducer. map_of (get_all env) n = Some (call_varargs (reduce_op reducer)) \<and>
           (\<forall>a b. reducer a b =
              (if (n = ''div'' \<or> n = ''mod'') \<and> b = 0 then None else Some (spec_reducer n a b)))"
proof -
  from assms have "n = ''add'' \<or> n = ''sub'' \<or> n = ''mul'' \<or> n = ''div'' \<or>
      n = ''mod'' \<or> n = ''xor'' \<or> n = ''and'' \<or> n = ''or''"
    by (simp add: reduce_ops_def)
  then show ?thesis
  proof (elim disjE)
    assume "n = ''add''"
    then show ?thesis
      by (intro exI [of _ operator_add])
         (simp add: reducer_of_name operator_add_def spec_reducer_def)
  next
    assume "n = ''sub''"
    then show ?thesis
      by (intro exI [of _ operator_sub])
         (simp add: reducer_of_name operator_sub_def spec_reducer_def)
  next
    assume "n = ''mul''"
    then show ?thesis
      by (intro exI [of _ operator_mul])
         (simp add: reducer_of_name operator_mul_def spec_reducer_def)
  next
    assume "n = ''div''"
    then show ?thesis
      by (intro exI [of _ operator_floordiv])
         (simp add: reducer_of_name operator_floordiv_def spec_reducer_def)
  next
    assume "n = ''mod''"
    then show ?thesis
      by (intro exI [of _ operator_mod])
         (simp add: reducer_of_name operator_mod_def spec_reducer_def)
  next
    assume "n = ''xor''"
    then show ?thesis
      by (intro exI [of _ operator_xor])
         (simp add: reducer_of_name operator_xor_def spec_reducer_def)
  next
    assume "n = ''and''"
    then show ?thesis
      by (intro exI [of _ operator_and])
         (simp add: reducer_of_name operator_and_def spec_reducer_def)
  next
    assume "n = ''or''"
    then show ?thesis
      by (intro exI [of _ operator_or])
         (simp add: reducer_of_name operator_or_def spec_reducer_def)
  qed
qed

lemma execute_handler_reduce:
  assumes "map_of (get_all env) n = Some (call_varargs (reduce_op reducer))"
  shows "execute_handler env (Instruction n (dest # srcs) subs) st =
           Some (reduce_op reducer dest srcs st)"
  using assms by (simp add: execute_handler_def call_varargs_def)

lemma get_operand_value_flags:
  "get_operand_value op (st\<lparr>flags := f\<rparr>) =
     (case get_operand_value op st of (v, st') \<Rightarrow> (v, st'\<lparr>flags := f\<rparr>))"
  by (induction op arbitrary: st)
     (auto simp: memory_get_def registers_get_def split: prod.splits)

lemma get_operand_value_ticks:
  "get_operand_value op (st\<lparr>ticks := t\<rparr>) =
     (case get_operand_value op st of (v, st') \<Rightarrow> (v, st'\<lparr>ticks := t\<rparr>))"
  by (induction op arbitrary: st)
     (auto simp: memory_get_def registers_get_def split: prod.splits)

lemma get_operand_value_current:
  "get_operand_value op (st\<lparr>current := c, current_sub := s\<rparr>) =
     (case get_operand_value op st of (v, st') \<Rightarrow> (v, st'\<lparr>current := c, current_sub := s\<rparr>))"
  by (induction op arbitrary: st)
     (auto simp: memory_get_def registers_get_def split: prod.splits)

lemma reads_only_trans:
  assumes "reads_only m1 m2" and "reads_only m2 m3"
  shows "reads_only m1 m3"
  using assms(2,1) by (induction rule: reads_only.induct) (auto intro: reads_only.intros)

lemma get_operand_value_reads_only:
  "get_operand_value op st = (v, st') \<Longrightarrow> reads_only (memory st) (memory st')"
proof (induction op arbitrary: st v st')
  case (IndirectAddress l a offset)
  obtain off st1 where o: "get_operand_value offset st = (off, st1)"
    by (cases "get_operand_value offset st")
  from IndirectAddress.IH [OF o] have "reads_only (memory st) (memory st1)" .
  then have "reads_only (memory st) (mem_after_get (memory st1) (l, a + off))"
    by (rule reads_only_get)
  with IndirectAddress.prems o show ?case
    by (auto simp: memory_get_def)
qed (auto simp: memory_get_def registers_get_def intro: reads_only.intros)

lemma reads_only_store: "reads_only m m' \<Longrightarrow> m = store cells \<Longrightarrow> m' = store cells"
  by (induction rule: reads_only.induct) auto

lemma memory_get_store: "memory st = store cells \<Longrightarrow> memory_get a st = (cells a, st)"
proof -
  assume m: "memory st = store cells"
  have "st\<lparr>memory := memory st\<rparr> = st" by simp
  with m have "st\<lparr>memory := store cells\<rparr> = st" by simp
  with m show ?thesis by (simp add: memory_get_def)
qed

lemma get_operand_value_store:
  "memory st = store cells \<Longrightarrow> snd (get_operand_value op st) = st"
proof (induction op arbitrary: st)
  case (IndirectAddress l a offset)
  obtain off st1 where o: "get_operand_value offset st = (off, st1)"
    by (cases "get_operand_value offset st")
  with IndirectAddress.IH [OF IndirectAddress.prems] have "st1 = st"
    by simp
  with o IndirectAddress.prems show ?case
    by (simp add: memory_get_store)
qed (simp_all add: memory_get_store)

lemma get_after_set_store:
  assumes "memory st = store cells" and "writeable D"
    and "set_operand_value D r st = (out, st')"
    and "\<forall>l a offset. D = IndirectAddress l a offset \<longrightarrow>
           fst (get_operand_value offset st') = fst (get_operand_value offset st)"
  shows "fst (get_operand_value D st') = r"
proof (cases D)
  case (Register x)
  with assms(3) show ?thesis
    by (auto simp: registers_set_def registers_get_def)
next
  case (Address l a)
  with assms(1,3) have "memory st' = store (cells((l, a) := r))"
    by (auto simp: memory_set_def)
  with Address show ?thesis
    by (simp add: memory_get_store)
next
  case (IndirectAddress l a offset)
  obtain off st1 where o: "get_operand_value offset st = (off, st1)"
    by (cases "get_operand_value offset st")
  with get_operand_value_store [OF assms(1), of offset] have st1: "st1 = st"
    by simp
  from IndirectAddress assms(1,3) o st1
  have m: "memory st' = store (cells((l, a + off) := r))"
    by (auto simp: memory_set_def)
  obtain off' st2 where o': "get_operand_value offset st' = (off', st2)"
    by (cases "get_operand_value offset st'")
  with get_operand_value_store [OF m, of offset] have st2: "st2 = st'"
    by simp
  from assms(4) IndirectAddress o o' have "off' = off"
    by simp
  with IndirectAddress m o' st2 show ?thesis
    by (simp add: memory_get_store)
qed (use assms(2) in simp_all)

lemma reduce_instruction:
  assumes "n \<in> set reduce_ops"
    and "get_operand_value dest st = (v1, st1)" and "get_operand_value src st1 = (v2, st2)"
  shows "execute_handler env (Instruction n (dest # src # rest) subs) st =
     Some (if (n = ''div'' \<or> n = ''mod'') \<and> v2 = 0
           then (Raised ALUDZeroDivisionError,
                 st2\<lparr>ticks := ticks st + (if same_bus dest src then 2 else 1)\<rparr>)
           else set_operand_value dest (spec_reducer n v1 v2)
                  (st2\<lparr>flags := (\<lambda>f. case f of Z \<Rightarrow> spec_reducer n v1 v2 = 0
                                            | N \<Rightarrow> spec_reducer n v1 v2 < 0),
                       ticks := ticks st + (if same_bus dest src then 3 else 2)\<rparr>))"
proof -
  from reduce_ops_handler [OF assms(1)] obtain reducer
    where h: "map_of (get_all env) n = Some (call_varargs (reduce_op reducer))"
      and r: "\<And>a b. reducer a b =
        (if (n = ''div'' \<or> n = ''mod'') \<and> b = 0 then None else Some (spec_reducer n a b))"
    by blast
  show ?thesis
    unfolding execute_handler_reduce [OF h] reduce_op_Cons [OF assms(2,3)] r
    by simp
qed

lemma jump_handler:
  assumes "n \<in> set jump_names"
  shows "execute_handler env (Instruction n [Label l v] subs) st =
     Some (Completed,
           if spec_jump_condition n (flags st Z) (flags st N)
           then st\<lparr>instruction_pointer := v - 1\<rparr> else st)"
proof -
  from assms have "n = ''jmp'' \<or> n = ''je'' \<or> n = ''jne'' \<or> n = ''jl'' \<or> n = ''jg'' \<or>
      n = ''jle'' \<or> n = ''jge''"
    by (simp add: jump_names_def)
  then show ?thesis
    by (elim disjE)
       (simp_all add: execute_handler_def get_all_def call1_def i_jmp_def i_je_def i_jne_def
         i_jl_def i_jg_def i_jle_def i_jge_def jmp_if_def jump_to_def get_flag_def
         set_instruction_pointer_def spec_jump_condition_def)
qed

section \<open>Writing through the operand resolver\<close>

text \<open>
  C6. Writing any value to a Constant or a Label raises \<open>OperandIsNotWriteable\<close> with the
  operand's value and leaves the whole machine, memory and registers included, as it was.
  A write to a Register goes to the register controller, a write to an Address to the
  memory controller at that address, and a write to an IndirectAddress to the memory
  controller at the base offset plus the resolved inner offset; each of them succeeds.
\<close>

theorem set_operand_value_cases:
  "set_operand_value (Constant c) val st = (Raised (OperandIsNotWriteable c), st) \<and>
   set_operand_value (Label l c) val st = (Raised (OperandIsNotWriteable c), st) \<and>
   set_operand_value (Register r) val st =
     (Completed, st\<lparr>registers := (registers st)(r := val)\<rparr>) \<and>
   set_operand_value (Address l a) val st =
     (Completed, st\<lparr>memory := mem_after_set (memory st) (l, a) val\<rparr>) \<and>
   set_operand_value (IndirectAddress l a offset) val st =
     (Completed,
      (snd (get_operand_value offset st))
        \<lparr>memory := mem_after_set (memory (snd (get_operand_value offset st)))
                    (l, a + fst (get_operand_value offset st)) val\<rparr>)"
  by (simp add: memory_set_def registers_set_def split: prod.splits)

theorem set_operand_value_cases_witness:
  "set_operand_value (Constant 7) 1 (machine0 empty_store) =
     (Raised (OperandIsNotWriteable 7), machine0 empty_store) \<and>
   registers (snd (set_operand_value (Register ''r'') 5 (machine0 empty_store))) ''r'' = 5 \<and>
   mem_value
     (memory (snd (set_operand_value (IndirectAddress ''a'' 2 (Constant 3)) 9
        (machine0 empty_store)))) (''a'', 5) = 9"
  using set_operand_value_cases [where c = 7 and val = 1 and st = "machine0 empty_store"]
    set_operand_value_cases [where r = "''r''" and val = 5 and st = "machine0 empty_store"]
    set_operand_value_cases [where l = "''a''" and a = 2 and offset = "Constant 3" and val = 9
      and st = "machine0 empty_store"]
  by (simp add: machine0_def empty_store_def)

section \<open>HLT\<close>

text \<open>
  C3. The HLT handler consumes exactly one clock cycle and then raises \<open>ProgramExit\<close>; it
  changes nothing else, so it does not touch the instruction pointer. \<open>ProgramExit\<close> is
  none of the fault exceptions, and it leaves \<open>execute\<close> uncaught: \<open>execute\<close> of a HLT
  instruction ends with \<open>ProgramExit\<close> raised, one cycle after it began.
\<close>

theorem hlt_raises_program_exit:
  "i_hlt st = (Raised ProgramExit, st\<lparr>ticks := ticks st + 1\<rparr>) \<and>
   instruction_pointer (snd (i_hlt st)) = instruction_pointer st \<and>
   ProgramExit \<notin> {OperandIsNotWriteable v, ALUDZeroDivisionError, ValueError} \<and>
   execute env (Instruction ''hlt'' [] []) st =
     Some (Raised ProgramExit,
           st\<lparr>current := Some (Instruction ''hlt'' [] []), current_sub := None,
              ticks := ticks st + 1\<rparr>)"
  by (simp add: i_hlt_def clock_tick_def execute_def execute_body_def execute_handler_def
      get_all_def call0_def)

theorem hlt_raises_program_exit_witness:
  "execute env0 (Instruction ''hlt'' [] []) (machine0 empty_store) =
     Some (Raised ProgramExit,
           (machine0 empty_store)\<lparr>current := Some (Instruction ''hlt'' [] []), ticks := 1\<rparr>)"
  using hlt_raises_program_exit [where st = "machine0 empty_store" and env = env0]
  by (simp add: machine0_def)

section \<open>The clock\<close>

lemma execute_after_body:
  "(execute_body env i st = None \<longrightarrow> execute env i st = None) \<and>
   (execute_body env i st = Some (Completed, st_b) \<longrightarrow>
      execute env i st =
        Some (Completed,
              st_b\<lparr>instruction_pointer := instruction_pointer st_b + 1,
                   ticks := ticks st_b + 1, instructions := instructions st_b + 1\<rparr>)) \<and>
   (execute_body env i st = Some (Raised e, st_b) \<longrightarrow>
      execute env i st = Some (Raised e, st_b))"
  by (simp add: execute_def clock_inst_def clock_tick_def set_instruction_pointer_def
      get_instruction_pointer_def)

lemma execute_body_cases:
  "(sub i = [] \<longrightarrow>
      execute_body env i st =
        execute_handler env i (st\<lparr>current := Some i, current_sub := None\<rparr>)) \<and>
   (sub i \<noteq> [] \<longrightarrow>
      execute_body env i st =
        execute_subs env (sub i) (st\<lparr>current := Some i, current_sub := None\<rparr>))"
  by (simp add: execute_body_def)

lemma execute_returns:
  assumes "name i \<noteq> ''ldn'' \<and> (\<forall>s \<in> set (sub i). name s \<noteq> ''ldn'')"
  shows "execute env i st \<noteq> None"
proof -
  from assms have "execute_body env i st \<noteq> None"
    by (simp add: execute_body_returns)
  then show ?thesis
    by (auto simp: execute_def split: outcome.splits)
qed

lemma execute_hlt:
  "execute env (Instruction ''hlt'' [] []) st =
     Some (Raised ProgramExit,
           st\<lparr>current := Some (Instruction ''hlt'' [] []), current_sub := None,
              ticks := ticks st + 1\<rparr>)"
  by (simp add: i_hlt_def clock_tick_def execute_def execute_body_def execute_handler_def
      get_all_def call0_def)

text \<open>
  C1 (as amended). An instruction that \<open>execute\<close> runs to completion costs at least one
  cycle and is counted exactly once: when the body (the handler, or the handlers of the
  sub-instructions) completes, \<open>execute\<close> returns with the pointer advanced, one overhead
  tick and one instruction counted on top of what the body left, also for handlers that
  consumed no cycle themselves. When a handler raises (a fault, or \<open>ProgramExit\<close> of HLT),
  the exception leaves \<open>execute\<close> at once: the state is exactly the one the body left, with
  no overhead tick and no instruction counted, so the cycle counter has only the cycles
  the handlers consumed (one for HLT) and the instruction counter is unchanged. No handler
  counts an instruction or sets the clock back. \<open>execute\<close> returns for every instruction
  that involves no LDN.
\<close>

theorem execute_clock:
  "(name i \<noteq> ''ldn'' \<and> (\<forall>s \<in> set (sub i). name s \<noteq> ''ldn'') \<longrightarrow> execute env i st \<noteq> None) \<and>
   (execute_body env i st = None \<longrightarrow> execute env i st = None) \<and>
   (execute_body env i st = Some (Completed, st_b) \<longrightarrow>
      execute env i st =
        Some (Completed,
              st_b\<lparr>instruction_pointer := instruction_pointer st_b + 1,
                   ticks := ticks st_b + 1, instructions := instructions st_b + 1\<rparr>) \<and>
      ticks st \<le> ticks st_b \<and> instructions st_b = instructions st) \<and>
   (execute_body env i st = Some (Raised e, st_b) \<longrightarrow>
      execute env i st = Some (Raised e, st_b) \<and>
      ticks st \<le> ticks st_b \<and> instructions st_b = instructions st) \<and>
   (sub i = [] \<longrightarrow>
      execute_body env i st =
        execute_handler env i (st\<lparr>current := Some i, current_sub := None\<rparr>)) \<and>
   (sub i \<noteq> [] \<longrightarrow>
      execute_body env i st =
        execute_subs env (sub i) (st\<lparr>current := Some i, current_sub := None\<rparr>)) \<and>
   execute env (Instruction ''hlt'' [] []) st =
     Some (Raised ProgramExit,
           st\<lparr>current := Some (Instruction ''hlt'' [] []), current_sub := None,
              ticks := ticks st + 1\<rparr>) \<and>
   (execute env i st = Some (Completed, st') \<longrightarrow>
      ticks st + 1 \<le> ticks st' \<and> instructions st' = instructions st + 1) \<and>
   (execute env i st = Some (Raised e, st') \<longrightarrow>
      execute_body env i st = Some (Raised e, st') \<and>
      ticks st \<le> ticks st' \<and> instructions st' = instructions st)"
proof -
  note b = execute_after_body [of env i st st_b e]
  have 1: "name i \<noteq> ''ldn'' \<and> (\<forall>s \<in> set (sub i). name s \<noteq> ''ldn'') \<longrightarrow> execute env i st \<noteq> None"
    using execute_returns [of i env st] by blast
  have 3: "execute_body env i st = Some (Completed, st_b) \<longrightarrow>
      execute env i st =
        Some (Completed,
              st_b\<lparr>instruction_pointer := instruction_pointer st_b + 1,
                   ticks := ticks st_b + 1, instructions := instructions st_b + 1\<rparr>) \<and>
      ticks st \<le> ticks st_b \<and> instructions st_b = instructions st"
    using b execute_body_clock [of env i st "(Completed, st_b)"] by simp
  have 4: "execute_body env i st = Some (Raised e, st_b) \<longrightarrow>
      execute env i st = Some (Raised e, st_b) \<and>
      ticks st \<le> ticks st_b \<and> instructions st_b = instructions st"
    using b execute_body_clock [of env i st "(Raised e, st_b)"] by simp
  have 8: "execute env i st = Some (Completed, st') \<longrightarrow>
      ticks st + 1 \<le> ticks st' \<and> instructions st' = instructions st + 1"
  proof
    assume a: "execute env i st = Some (Completed, st')"
    then obtain st1 where c: "execute_body env i st = Some (Completed, st1)"
      and st': "st' = clock_inst (clock_tick
           (set_instruction_pointer (get_instruction_pointer st1 + 1) st1))"
      by (auto simp: execute_def split: option.splits outcome.splits)
    from execute_body_clock [OF c] st'
    show "ticks st + 1 \<le> ticks st' \<and> instructions st' = instructions st + 1"
      by (simp add: clock_inst_def clock_tick_def set_instruction_pointer_def)
  qed
  have 9: "execute env i st = Some (Raised e, st') \<longrightarrow>
      execute_body env i st = Some (Raised e, st') \<and>
      ticks st \<le> ticks st' \<and> instructions st' = instructions st"
  proof
    assume a: "execute env i st = Some (Raised e, st')"
    then have c: "execute_body env i st = Some (Raised e, st')"
      by (auto simp: execute_def split: option.splits outcome.splits)
    with execute_body_clock [OF c]
    show "execute_body env i st = Some (Raised e, st') \<and>
      ticks st \<le> ticks st' \<and> instructions st' = instructions st"
      by simp
  qed
  from 1 b 3 4 execute_body_cases [of i env st] execute_hlt [of env st] 8 9 show ?thesis
    by blast
qed


theorem execute_clock_witness:
  "name (Instruction ''seq'' []
      [Instruction ''inc'' [Register ''r''] [], Instruction ''jmp'' [Label ''loop'' 4] []]) \<noteq> ''ldn'' \<and>
   execute env0
     (Instruction ''seq'' []
        [Instruction ''inc'' [Register ''r''] [], Instruction ''jmp'' [Label ''loop'' 4] []])
     (machine0 empty_store) =
     Some (Completed,
       (machine0 empty_store)
         \<lparr>current := Some (Instruction ''seq'' []
            [Instruction ''inc'' [Register ''r''] [], Instruction ''jmp'' [Label ''loop'' 4] []]),
          current_sub := Some (Instruction ''jmp'' [Label ''loop'' 4] []),
          registers := (registers (machine0 empty_store))(''r'' := 1),
          instruction_pointer := 4, ticks := 2, instructions := 1\<rparr>) \<and>
   ticks (machine0 empty_store) + 1 \<le> 2 \<and> 1 = instructions (machine0 empty_store) + 1 \<and>
   execute env0
     (Instruction ''seq'' []
        [Instruction ''inc'' [Register ''r''] [], Instruction ''hlt'' [] []])
     (machine0 empty_store) =
     Some (Raised ProgramExit,
       (machine0 empty_store)
         \<lparr>current := Some (Instruction ''seq'' []
            [Instruction ''inc'' [Register ''r''] [], Instruction ''hlt'' [] []]),
          current_sub := Some (Instruction ''hlt'' [] []),
          registers := (registers (machine0 empty_store))(''r'' := 1),
          ticks := 2\<rparr>) \<and>
   execute env0 (Instruction ''nop'' [] []) (machine0 empty_store) =
     Some (Raised (KeyError ''nop''),
       (machine0 empty_store)\<lparr>current := Some (Instruction ''nop'' [] [])\<rparr>)"
  using execute_clock [where env = env0
      and i = "Instruction ''seq'' []
        [Instruction ''inc'' [Register ''r''] [], Instruction ''jmp'' [Label ''loop'' 4] []]"
      and st = "machine0 empty_store"
      and st_b = "(machine0 empty_store)
         \<lparr>current := Some (Instruction ''seq'' []
            [Instruction ''inc'' [Register ''r''] [], Instruction ''jmp'' [Label ''loop'' 4] []]),
          current_sub := Some (Instruction ''jmp'' [Label ''loop'' 4] []),
          registers := (registers (machine0 empty_store))(''r'' := 1),
          instruction_pointer := 3, ticks := 1\<rparr>"
      and st' = "(machine0 empty_store)
         \<lparr>current := Some (Instruction ''seq'' []
            [Instruction ''inc'' [Register ''r''] [], Instruction ''jmp'' [Label ''loop'' 4] []]),
          current_sub := Some (Instruction ''jmp'' [Label ''loop'' 4] []),
          registers := (registers (machine0 empty_store))(''r'' := 1),
          instruction_pointer := 4, ticks := 2, instructions := 1\<rparr>"]
    execute_clock [where env = env0
      and i = "Instruction ''seq'' []
        [Instruction ''inc'' [Register ''r''] [], Instruction ''hlt'' [] []]"
      and st = "machine0 empty_store" and e = ProgramExit
      and st_b = "(machine0 empty_store)
         \<lparr>current := Some (Instruction ''seq'' []
            [Instruction ''inc'' [Register ''r''] [], Instruction ''hlt'' [] []]),
          current_sub := Some (Instruction ''hlt'' [] []),
          registers := (registers (machine0 empty_store))(''r'' := 1),
          ticks := 2\<rparr>"]
    execute_clock [where env = env0 and i = "Instruction ''nop'' [] []"
      and st = "machine0 empty_store" and e = "KeyError ''nop''"
      and st_b = "(machine0 empty_store)\<lparr>current := Some (Instruction ''nop'' [] [])\<rparr>"]
  by (simp add: execute_def execute_body_def execute_handler_def get_all_def call1_def call0_def
      i_jmp_def i_inc_def i_hlt_def registers_get_def registers_set_def
      jump_to_def set_instruction_pointer_def get_instruction_pointer_def clock_tick_def
      clock_inst_def machine0_def)

text \<open>
  The claim as stated fails for HLT: its handler raises, and the instruction is not
  counted.
\<close>

theorem execute_clock_counterexample:
  "execute env0 (Instruction ''hlt'' [] []) (machine0 empty_store) =
     Some (Raised ProgramExit,
       (machine0 empty_store)\<lparr>current := Some (Instruction ''hlt'' [] []), ticks := 1\<rparr>) \<and>
   instructions ((machine0 empty_store)\<lparr>current := Some (Instruction ''hlt'' [] []), ticks := 1\<rparr>)
     \<noteq> instructions (machine0 empty_store) + 1"
  by (simp add: execute_def execute_body_def execute_handler_def get_all_def call0_def i_hlt_def
      clock_tick_def machine0_def)

section \<open>The instruction pointer\<close>

text \<open>
  C2 (as amended). When the body of an instruction completes, \<open>execute\<close> returns with the
  instruction pointer advanced by exactly one from where the body left it; an instruction
  that is no jump and has no jump among its sub-instructions thus ends exactly one past
  its pre-execution pointer. When the body raises (NotWriteable, division by zero,
  malformed input, \<open>ProgramExit\<close>), the exception leaves \<open>execute\<close> at once: the state is
  the one the body left, and the pointer is not advanced. \<open>execute\<close> returns for every
  instruction that involves no LDN.
\<close>

theorem execute_pointer:
  "(name i \<noteq> ''ldn'' \<and> (\<forall>s \<in> set (sub i). name s \<noteq> ''ldn'') \<longrightarrow> execute env i st \<noteq> None) \<and>
   (execute_body env i st = None \<longrightarrow> execute env i st = None) \<and>
   (execute_body env i st = Some (Completed, st_b) \<longrightarrow>
      execute env i st =
        Some (Completed,
              st_b\<lparr>instruction_pointer := instruction_pointer st_b + 1,
                   ticks := ticks st_b + 1, instructions := instructions st_b + 1\<rparr>)) \<and>
   (execute_body env i st = Some (Raised e, st_b) \<longrightarrow>
      execute env i st = Some (Raised e, st_b)) \<and>
   (name i \<notin> set jump_names \<and> (\<forall>s \<in> set (sub i). name s \<notin> set jump_names) \<longrightarrow>
      (execute_body env i st = Some (Completed, st_b) \<longrightarrow>
         instruction_pointer st_b = instruction_pointer st) \<and>
      (execute_body env i st = Some (Raised e, st_b) \<longrightarrow>
         instruction_pointer st_b = instruction_pointer st)) \<and>
   (execute env i st = Some (Completed, st') \<longrightarrow>
      (\<exists>st1. execute_body env i st = Some (Completed, st1) \<and>
             instruction_pointer st' = instruction_pointer st1 + 1)) \<and>
   (execute env i st = Some (Raised e, st') \<longleftrightarrow> execute_body env i st = Some (Raised e, st')) \<and>
   (name i \<notin> set jump_names \<and> (\<forall>s \<in> set (sub i). name s \<notin> set jump_names) \<longrightarrow>
      (execute env i st = Some (Completed, st') \<longrightarrow>
         instruction_pointer st' = instruction_pointer st + 1) \<and>
      (execute env i st = Some (Raised e, st') \<longrightarrow>
         instruction_pointer st' = instruction_pointer st))"
proof -
  note b = execute_after_body [of env i st st_b e]
  have 1: "name i \<noteq> ''ldn'' \<and> (\<forall>s \<in> set (sub i). name s \<noteq> ''ldn'') \<longrightarrow> execute env i st \<noteq> None"
    using execute_returns [of i env st] by blast
  have completed: "\<exists>st1. execute_body env i st = Some (Completed, st1) \<and>
      instruction_pointer st' = instruction_pointer st1 + 1"
    if "execute env i st = Some (Completed, st')"
    using that
    by (auto simp: execute_def clock_inst_def clock_tick_def set_instruction_pointer_def
        get_instruction_pointer_def split: option.splits outcome.splits)
  have raised: "execute env i st = Some (Raised e, st') \<longleftrightarrow>
      execute_body env i st = Some (Raised e, st')"
    by (auto simp: execute_def split: option.splits outcome.splits)
  have plain: "instruction_pointer (snd r) = instruction_pointer st"
    if "name i \<notin> set jump_names \<and> (\<forall>s \<in> set (sub i). name s \<notin> set jump_names)"
      and "execute_body env i st = Some r" for r
    using execute_body_pointer [of env i st r] that by simp
  have 5: "name i \<notin> set jump_names \<and> (\<forall>s \<in> set (sub i). name s \<notin> set jump_names) \<longrightarrow>
      (execute_body env i st = Some (Completed, st_b) \<longrightarrow>
         instruction_pointer st_b = instruction_pointer st) \<and>
      (execute_body env i st = Some (Raised e, st_b) \<longrightarrow>
         instruction_pointer st_b = instruction_pointer st)"
    using plain [of "(Completed, st_b)"] plain [of "(Raised e, st_b)"] by simp
  have 8: "name i \<notin> set jump_names \<and> (\<forall>s \<in> set (sub i). name s \<notin> set jump_names) \<longrightarrow>
      (execute env i st = Some (Completed, st') \<longrightarrow>
         instruction_pointer st' = instruction_pointer st + 1) \<and>
      (execute env i st = Some (Raised e, st') \<longrightarrow>
         instruction_pointer st' = instruction_pointer st)"
  proof (intro impI conjI)
    assume n: "name i \<notin> set jump_names \<and> (\<forall>s \<in> set (sub i). name s \<notin> set jump_names)"
      and x: "execute env i st = Some (Completed, st')"
    from completed [OF x] obtain st1 where c: "execute_body env i st = Some (Completed, st1)"
      and p: "instruction_pointer st' = instruction_pointer st1 + 1"
      by blast
    from plain [OF n c] p show "instruction_pointer st' = instruction_pointer st + 1"
      by simp
  next
    assume n: "name i \<notin> set jump_names \<and> (\<forall>s \<in> set (sub i). name s \<notin> set jump_names)"
      and x: "execute env i st = Some (Raised e, st')"
    from x raised have "execute_body env i st = Some (Raised e, st')"
      by simp
    from plain [OF n this] show "instruction_pointer st' = instruction_pointer st"
      by simp
  qed
  have 6: "execute env i st = Some (Completed, st') \<longrightarrow>
      (\<exists>st1. execute_body env i st = Some (Completed, st1) \<and>
             instruction_pointer st' = instruction_pointer st1 + 1)"
    using completed by blast
  from 1 b 5 6 raised 8 show ?thesis
    by blast
qed

theorem execute_pointer_witness:
  "''seq'' \<noteq> ''ldn'' \<and> ''inc'' \<noteq> ''ldn'' \<and> ''dec'' \<noteq> ''ldn'' \<and>
   ''seq'' \<notin> set jump_names \<and> ''inc'' \<notin> set jump_names \<and> ''dec'' \<notin> set jump_names \<and>
   execute_body env0
     (Instruction ''seq'' []
        [Instruction ''inc'' [Register ''r''] [], Instruction ''dec'' [Register ''q''] []])
     (machine0 empty_store) =
     Some (Completed,
       (machine0 empty_store)
         \<lparr>current := Some (Instruction ''seq'' []
            [Instruction ''inc'' [Register ''r''] [], Instruction ''dec'' [Register ''q''] []]),
          current_sub := Some (Instruction ''dec'' [Register ''q''] []),
          registers := (registers (machine0 empty_store))(''r'' := 1, ''q'' := - 1),
          ticks := 2\<rparr>) \<and>
   execute env0
     (Instruction ''seq'' []
        [Instruction ''inc'' [Register ''r''] [], Instruction ''dec'' [Register ''q''] []])
     (machine0 empty_store) =
     Some (Completed,
       (machine0 empty_store)
         \<lparr>current := Some (Instruction ''seq'' []
            [Instruction ''inc'' [Register ''r''] [], Instruction ''dec'' [Register ''q''] []]),
          current_sub := Some (Instruction ''dec'' [Register ''q''] []),
          registers := (registers (machine0 empty_store))(''r'' := 1, ''q'' := - 1),
          instruction_pointer := 1, ticks := 3, instructions := 1\<rparr>) \<and>
   (1::int) = instruction_pointer (machine0 empty_store) + 1"
  using execute_pointer [where env = env0
      and i = "Instruction ''seq'' []
        [Instruction ''inc'' [Register ''r''] [], Instruction ''dec'' [Register ''q''] []]"
      and st = "machine0 empty_store"
      and st_b = "(machine0 empty_store)
         \<lparr>current := Some (Instruction ''seq'' []
            [Instruction ''inc'' [Register ''r''] [], Instruction ''dec'' [Register ''q''] []]),
          current_sub := Some (Instruction ''dec'' [Register ''q''] []),
          registers := (registers (machine0 empty_store))(''r'' := 1, ''q'' := - 1),
          ticks := 2\<rparr>"
      and st' = "(machine0 empty_store)
         \<lparr>current := Some (Instruction ''seq'' []
            [Instruction ''inc'' [Register ''r''] [], Instruction ''dec'' [Register ''q''] []]),
          current_sub := Some (Instruction ''dec'' [Register ''q''] []),
          registers := (registers (machine0 empty_store))(''r'' := 1, ''q'' := - 1),
          instruction_pointer := 1, ticks := 3, instructions := 1\<rparr>"]
  by (simp add: execute_def execute_body_def execute_handler_def get_all_def call1_def i_inc_def
      i_dec_def registers_get_def registers_set_def
      set_instruction_pointer_def get_instruction_pointer_def clock_tick_def
      clock_inst_def machine0_def jump_names_def)

text \<open>
  The claim as stated fails for a MOV into a constant: the write faults, and the pointer is
  where it was.
\<close>

theorem execute_pointer_counterexample:
  "execute env0 (Instruction ''mov'' [Constant 1, Constant 2] []) (machine0 empty_store) =
     Some (Raised (OperandIsNotWriteable 1),
       (machine0 empty_store)\<lparr>current := Some (Instruction ''mov'' [Constant 1, Constant 2] []),
          ticks := 1\<rparr>) \<and>
   instruction_pointer
     ((machine0 empty_store)\<lparr>current := Some (Instruction ''mov'' [Constant 1, Constant 2] []),
          ticks := 1\<rparr>) \<noteq> instruction_pointer (machine0 empty_store) + 1"
  by (simp add: execute_def execute_body_def execute_handler_def get_all_def call2_def i_mov_def
      clock_tick_def machine0_def)

section \<open>Jumps\<close>

text \<open>
  C5. For every jump instruction (jmp, je, jne, jl, jg, jle, jge) with a label operand:
  when its condition holds (always; Z; not Z; N; not N; Z or N; Z or not N) the handler
  sets the instruction pointer to the label's value minus one, and otherwise changes
  nothing; after \<open>execute\<close> the pointer is the label's value when the condition holds, and
  one past its pre-execution value when it does not. A jump costs the one overhead cycle
  of \<open>execute\<close>.
\<close>

theorem jump_lands:
  assumes "n \<in> set jump_names"
  shows "execute_handler env (Instruction n [Label l v] subs) st =
           Some (Completed,
                 if spec_jump_condition n (flags st Z) (flags st N)
                 then st\<lparr>instruction_pointer := v - 1\<rparr> else st) \<and>
         execute env (Instruction n [Label l v] []) st =
           Some (Completed,
                 st\<lparr>current := Some (Instruction n [Label l v] []), current_sub := None,
                    instruction_pointer :=
                      (if spec_jump_condition n (flags st Z) (flags st N) then v
                       else instruction_pointer st + 1),
                    ticks := ticks st + 1, instructions := instructions st + 1\<rparr>)"
proof -
  let ?i = "Instruction n [Label l v] []"
  have "execute_body env ?i st =
      execute_handler env ?i (st\<lparr>current := Some ?i, current_sub := None\<rparr>)"
    by (simp add: execute_body_def)
  then have "execute env ?i st =
           Some (Completed,
                 st\<lparr>current := Some ?i, current_sub := None,
                    instruction_pointer :=
                      (if spec_jump_condition n (flags st Z) (flags st N) then v
                       else instruction_pointer st + 1),
                    ticks := ticks st + 1, instructions := instructions st + 1\<rparr>)"
    by (simp add: execute_def jump_handler [OF assms] clock_inst_def clock_tick_def
        set_instruction_pointer_def get_instruction_pointer_def)
  with jump_handler [OF assms, of env l v subs st] show ?thesis
    by simp
qed

theorem jump_lands_witness:
  "''jle'' \<in> set jump_names \<and>
   execute env0 (Instruction ''jle'' [Label ''end'' 9] [])
     ((machine0 empty_store)\<lparr>flags := (flags (machine0 empty_store))(N := True)\<rparr>) =
   Some (Completed,
         (machine0 empty_store)
           \<lparr>flags := (flags (machine0 empty_store))(N := True),
            current := Some (Instruction ''jle'' [Label ''end'' 9] []),
            instruction_pointer := 9, ticks := 1, instructions := 1\<rparr>) \<and>
   execute env0 (Instruction ''jg'' [Label ''end'' 9] [])
     ((machine0 empty_store)\<lparr>flags := (flags (machine0 empty_store))(N := True)\<rparr>) =
   Some (Completed,
         (machine0 empty_store)
           \<lparr>flags := (flags (machine0 empty_store))(N := True),
            current := Some (Instruction ''jg'' [Label ''end'' 9] []),
            instruction_pointer := 1, ticks := 1, instructions := 1\<rparr>)"
  using jump_lands [where n = "''jle''" and l = "''end''" and v = 9 and env = env0
      and st = "(machine0 empty_store)\<lparr>flags := (flags (machine0 empty_store))(N := True)\<rparr>"]
    jump_lands [where n = "''jg''" and l = "''end''" and v = 9 and env = env0
      and st = "(machine0 empty_store)\<lparr>flags := (flags (machine0 empty_store))(N := True)\<rparr>"]
  by (simp add: jump_names_def spec_jump_condition_def machine0_def)

section \<open>Reductions\<close>










text \<open>
  C7. When the source of a div or mod resolves to zero, the handler raises the ALU's
  \<open>ALUDZeroDivisionError\<close>, which also leaves \<open>execute\<close>; nothing is written: the
  registers and the flags are as before, and the memory controller has only been read. On
  plain data memory nothing but the clock has changed, and \<open>D\<close> still resolves to \<open>x\<close>.
\<close>

theorem division_by_zero_faults:
  assumes "n = ''div'' \<or> n = ''mod''"
    and "get_operand_value D st = (x, st_D)"
    and "get_operand_value S st_D = (0, st_S)"
  shows "execute_handler env (Instruction n (D # S # rest) subs) st =
           Some (Raised ALUDZeroDivisionError,
                 st_S\<lparr>ticks := ticks st + (if same_bus D S then 2 else 1)\<rparr>) \<and>
         execute env (Instruction n (D # S # rest) []) st =
           Some (Raised ALUDZeroDivisionError,
                 st_S\<lparr>current := Some (Instruction n (D # S # rest) []), current_sub := None,
                      ticks := ticks st + (if same_bus D S then 2 else 1)\<rparr>) \<and>
         registers st_S = registers st \<and> flags st_S = flags st \<and>
         instruction_pointer st_S = instruction_pointer st \<and>
         reads_only (memory st) (memory st_S) \<and>
         (\<forall>cells. memory st = store cells \<longrightarrow>
            st_S = st \<and>
            fst (get_operand_value D
                  (st_S\<lparr>ticks := ticks st + (if same_bus D S then 2 else 1)\<rparr>)) = x)"
proof -
  from assms(1) have n: "n \<in> set reduce_ops"
    by (auto simp: reduce_ops_def)
  let ?i = "Instruction n (D # S # rest) []"
  let ?st = "st\<lparr>current := Some ?i, current_sub := None\<rparr>"
  have d: "get_operand_value D ?st = (x, st_D\<lparr>current := Some ?i, current_sub := None\<rparr>)"
    using assms(2) by (simp add: get_operand_value_current)
  have s: "get_operand_value S (st_D\<lparr>current := Some ?i, current_sub := None\<rparr>) =
      (0, st_S\<lparr>current := Some ?i, current_sub := None\<rparr>)"
    using assms(3) by (simp add: get_operand_value_current)
  have "execute_body env ?i st =
      Some (Raised ALUDZeroDivisionError,
            st_S\<lparr>current := Some ?i, current_sub := None,
                 ticks := ticks st + (if same_bus D S then 2 else 1)\<rparr>)"
    using reduce_instruction [OF n d s, of env rest "[]"] assms(1)
    by (simp add: execute_body_def)
  then have e: "execute env ?i st =
      Some (Raised ALUDZeroDivisionError,
            st_S\<lparr>current := Some ?i, current_sub := None,
                 ticks := ticks st + (if same_bus D S then 2 else 1)\<rparr>)"
    by (simp add: execute_def)
  have h: "execute_handler env (Instruction n (D # S # rest) subs) st =
           Some (Raised ALUDZeroDivisionError,
                 st_S\<lparr>ticks := ticks st + (if same_bus D S then 2 else 1)\<rparr>)"
    using reduce_instruction [OF n assms(2,3), of env rest subs] assms(1) by simp
  have r: "reads_only (memory st) (memory st_S)"
    using get_operand_value_reads_only [OF assms(2)] get_operand_value_reads_only [OF assms(3)]
    by (rule reads_only_trans)
  have u: "st_S = st \<and>
      fst (get_operand_value D
            (st_S\<lparr>ticks := ticks st + (if same_bus D S then 2 else 1)\<rparr>)) = x"
    if c: "memory st = store cells" for cells
  proof -
    from get_operand_value_store [OF c, of D] assms(2) have "st_D = st"
      by simp
    with get_operand_value_store [OF c, of S] assms(3) have "st_S = st"
      by simp
    with assms(2) show ?thesis
      by (simp add: get_operand_value_ticks)
  qed
  have f: "registers st_S = registers st" "flags st_S = flags st"
    "instruction_pointer st_S = instruction_pointer st"
    using get_operand_value_frame [OF assms(2)] get_operand_value_frame [OF assms(3)]
    by simp_all
  from h e f r u show ?thesis
    by blast
qed

theorem division_by_zero_faults_witness:
  "execute env0 (Instruction ''div'' [Address ''x'' 1, Register ''r''] [])
     (machine0 (store (cells0((''x'', 1) := 7)))) =
     Some (Raised ALUDZeroDivisionError,
           (machine0 (store (cells0((''x'', 1) := 7))))
             \<lparr>current := Some (Instruction ''div'' [Address ''x'' 1, Register ''r''] []),
              ticks := 1\<rparr>) \<and>
   reads_only (store (cells0((''x'', 1) := 7))) (store (cells0((''x'', 1) := 7)))"
  using division_by_zero_faults [where n = "''div''" and D = "Address ''x'' 1"
      and S = "Register ''r''" and st = "machine0 (store (cells0((''x'', 1) := 7)))" and x = 7
      and st_D = "machine0 (store (cells0((''x'', 1) := 7)))"
      and st_S = "machine0 (store (cells0((''x'', 1) := 7)))" and env = env0 and rest = "[]"]
  by (simp add: memory_get_def registers_get_def machine0_def same_bus_def)

text \<open>
  C10. A reduction instruction with more than one source operand resolves only the first
  one: the handler does exactly what it does with that source alone, in result, flags,
  cycles and every other part of the state, and what it writes to the destination is the
  reducer's result for the destination's prior value and the first source's value.
\<close>

theorem reduce_first_source_only:
  assumes "n \<in> set reduce_ops"
  shows "execute_handler env (Instruction n (D # S # rest) subs) st =
           execute_handler env (Instruction n [D, S] subs) st \<and>
         (get_operand_value D st = (x, st_D) \<and> get_operand_value S st_D = (y, st_S) \<and>
          \<not> ((n = ''div'' \<or> n = ''mod'') \<and> y = 0) \<longrightarrow>
          execute_handler env (Instruction n (D # S # rest) subs) st =
            Some (set_operand_value D (spec_reducer n x y)
                   (st_S\<lparr>flags := (\<lambda>f. case f of Z \<Rightarrow> spec_reducer n x y = 0
                                              | N \<Rightarrow> spec_reducer n x y < 0),
                        ticks := ticks st + (if same_bus D S then 3 else 2)\<rparr>)))"
proof -
  from reduce_ops_handler [OF assms] obtain reducer
    where "map_of (get_all env) n = Some (call_varargs (reduce_op reducer))"
    by blast
  then have "execute_handler env (Instruction n (D # S # rest) subs) st =
      execute_handler env (Instruction n [D, S] subs) st"
    by (simp add: execute_handler_reduce reduce_op_rest [of reducer D S rest])
  moreover have "execute_handler env (Instruction n (D # S # rest) subs) st =
            Some (set_operand_value D (spec_reducer n x y)
                   (st_S\<lparr>flags := (\<lambda>f. case f of Z \<Rightarrow> spec_reducer n x y = 0
                                              | N \<Rightarrow> spec_reducer n x y < 0),
                        ticks := ticks st + (if same_bus D S then 3 else 2)\<rparr>))"
    if "get_operand_value D st = (x, st_D)" and "get_operand_value S st_D = (y, st_S)"
      and "\<not> ((n = ''div'' \<or> n = ''mod'') \<and> y = 0)"
    using reduce_instruction [OF assms that(1,2), of env rest subs] that(3) by simp
  ultimately show ?thesis by blast
qed

theorem reduce_first_source_only_witness:
  "''add'' \<in> set reduce_ops \<and>
   execute_handler env0
     (Instruction ''add'' [Register ''a'', Constant 2, Constant 3, Constant 4] [])
     (machine0 empty_store) =
   execute_handler env0 (Instruction ''add'' [Register ''a'', Constant 2] []) (machine0 empty_store) \<and>
   registers (snd (the (execute_handler env0
     (Instruction ''add'' [Register ''a'', Constant 2, Constant 3, Constant 4] [])
     (machine0 empty_store)))) ''a'' = 2 \<and>
   ticks (snd (the (execute_handler env0
     (Instruction ''add'' [Register ''a'', Constant 2, Constant 3, Constant 4] [])
     (machine0 empty_store)))) = 2"
  using reduce_first_source_only [where n = "''add''" and D = "Register ''a''" and S = "Constant 2"
      and rest = "[Constant 3, Constant 4]" and subs = "[]" and st = "machine0 empty_store"
      and env = env0 and x = 0 and y = 2 and st_D = "machine0 empty_store"
      and st_S = "machine0 empty_store"]
  by (simp add: reduce_ops_def registers_get_def registers_set_def machine0_def same_bus_def
      spec_reducer_def execute_handler_def get_all_def call_varargs_def i_add_def reduce_op_def
      alu_operation_def operator_add_def clock_tick_def)

section \<open>Numbers as character streams\<close>

text \<open>
  The decimal string of a number: digits only, after the sign; no leading zero; their
  decimal value is the number's magnitude.
\<close>

lemma digit_char_code: "d < 10 \<Longrightarrow> ord (''0123456789'' ! d) = 48 + int d"
proof -
  assume "d < 10"
  then have "d = 0 \<or> d = 1 \<or> d = 2 \<or> d = 3 \<or> d = 4 \<or> d = 5 \<or> d = 6 \<or> d = 7 \<or> d = 8 \<or> d = 9"
    by arith
  then show ?thesis
    by (elim disjE) (simp_all add: ord_def)
qed

lemma parse_digits_all_digits:
  "\<forall>c \<in> set ds. is_digit c \<Longrightarrow>
     parse_digits acc ds = Some (foldl (\<lambda>a c. 10 * a + (c - 48)) acc ds)"
proof (induction acc ds rule: parse_digits.induct)
  case (3 acc c d cs)
  then have "d \<noteq> 95" by (auto simp: is_digit_def)
  with 3 show ?case by simp
qed simp_all

lemma digits_of_codes:
  "(\<forall>c \<in> set (digits_of n). is_digit (ord c)) \<and> digits_of n \<noteq> [] \<and>
   decimal_value (map ord (digits_of n)) = int n"
proof (induction n rule: digits_of.induct)
  case (1 n)
  show ?case
  proof (cases "n < 10")
    case True
    then show ?thesis
      by (subst (1 2 3) digits_of.simps) (simp add: digit_char_code is_digit_def decimal_value_def)
  next
    case False
    with 1 have ih: "\<forall>c \<in> set (digits_of (n div 10)). is_digit (ord c)"
      "foldl (\<lambda>a c. 10 * a + (c - 48)) 0 (map ord (digits_of (n div 10))) = int (n div 10)"
      by (simp_all add: decimal_value_def)
    have d: "ord (''0123456789'' ! (n mod 10)) = 48 + int (n mod 10)"
      by (rule digit_char_code) simp
    have s: "digits_of n = digits_of (n div 10) @ [''0123456789'' ! (n mod 10)]"
      using False by (subst digits_of.simps) simp
    from ih d show ?thesis
      unfolding s by (simp add: is_digit_def zdiv_int zmod_int decimal_value_def)
  qed
qed

lemma digits_of_no_leading_zero: "n \<noteq> 0 \<Longrightarrow> ord (hd (digits_of n)) \<noteq> 48"
proof (induction n rule: digits_of.induct)
  case (1 n)
  show ?case
  proof (cases "n < 10")
    case True
    with 1(2) digit_char_code [of n] show ?thesis
      by (subst digits_of.simps) simp
  next
    case False
    then have "n div 10 \<noteq> 0" by simp
    with 1(1) False have "ord (hd (digits_of (n div 10))) \<noteq> 48"
      by simp
    moreover have "digits_of n = digits_of (n div 10) @ [''0123456789'' ! (n mod 10)]"
      using False by (subst digits_of.simps) simp
    ultimately show ?thesis
      using digits_of_codes [of "n div 10"] by simp
  qed
qed

lemma decimal_string_sign:
  "decimal_string v = (if v < 0 then ''-'' else []) @ digits_of (nat \<bar>v\<bar>)"
  by (simp add: decimal_string_def abs_if)

lemma digits_of_power: "length (digits_of (10 ^ k)) = Suc k"
proof (induction k)
  case 0
  show ?case by (subst digits_of.simps) simp
next
  case (Suc k)
  have "\<not> (10::nat) ^ Suc k < 10" by simp
  then have "digits_of (10 ^ Suc k) =
      digits_of (10 ^ Suc k div 10) @ [''0123456789'' ! (10 ^ Suc k mod 10)]"
    by (subst digits_of.simps) (simp only: if_False)
  with Suc show ?case by simp
qed

lemma py_str_cases:
  "py_str env v = None \<longleftrightarrow>
     0 < int_max_str_digits env \<and> 640 < length (decimal_string v) \<and>
     int_max_str_digits env < length (digits_of (nat \<bar>v\<bar>))"
  "py_str env v = Some s \<Longrightarrow> s = decimal_string v"
  by (auto simp: py_str_def exceeds_str_digits_def MAX_STR_DIGITS_THRESHOLD_def
      decimal_string_sign split: if_splits)

lemma py_str_power:
  assumes "0 < int_max_str_digits env" and "int_max_str_digits env \<le> k" and "640 \<le> k"
  shows "py_str env (10 ^ k) = None"
proof -
  have "nat \<bar>(10::int) ^ k\<bar> = 10 ^ k"
    by (simp add: nat_power_eq)
  moreover have "\<not> (10::int) ^ k < 0"
    by simp
  ultimately show ?thesis
    using assms unfolding py_str_cases(1) decimal_string_sign
    by (simp add: digits_of_power nat_power_eq)
qed

lemma py_str_examples: "py_str env 1234 = Some ''1234''" "py_str env (- 5) = Some ''-5''"
  by (simp_all add: py_str_def decimal_string_def digits_of.simps exceeds_str_digits_def
      MAX_STR_DIGITS_THRESHOLD_def)

text \<open>\<^verbatim>\<open>int\<close> on a string of digits, and on one with a minus sign before the digits.\<close>

lemma strip_no_space:
  assumes "s \<noteq> []" and "\<not> is_space (hd s)" and "\<not> is_space (last s)"
  shows "strip s = s"
proof -
  from assms(1,2) have "dropWhile is_space s = s"
    by (cases s) simp_all
  moreover from assms(1,3) have "dropWhile is_space (rev s) = rev s"
    by (cases "rev s") (simp_all add: hd_rev)
  ultimately show ?thesis
    by (simp add: strip_def)
qed

lemma digit_not_space: "is_digit c \<Longrightarrow> \<not> is_space c"
  by (auto simp: is_digit_def is_space_def)

lemma to_ascii_digits: "\<forall>c \<in> set cs. is_digit c \<Longrightarrow> map (to_ascii env) cs = cs"
  by (induction cs) (auto simp: to_ascii_def is_digit_def)

lemma parse_unsigned_digits:
  assumes "cs \<noteq> []" and "\<forall>c \<in> set cs. is_digit c"
  shows "parse_unsigned env cs =
     (if exceeds_str_digits env (length cs) (length cs) then None
      else Some (decimal_value cs))"
proof -
  from assms(2) have "filter is_digit cs = cs"
    by simp
  with assms show ?thesis
    by (cases cs) (simp_all add: parse_unsigned_def parse_digits_all_digits decimal_value_def)
qed

lemma py_int_digits:
  assumes "cs \<noteq> []" and "\<forall>c \<in> set cs. is_digit c"
  shows "py_int env cs =
     (if exceeds_str_digits env (length cs) (length cs) then None
      else Some (decimal_value cs))"
proof -
  from assms have "is_digit (hd cs)" "is_digit (last cs)"
    by simp_all
  then have "strip cs = cs" and first: "hd cs \<noteq> 45 \<and> hd cs \<noteq> 43"
    using assms(1) by (simp_all add: strip_no_space digit_not_space) (simp add: is_digit_def)
  moreover from first assms(1) have "parse_signed env cs = parse_unsigned env cs"
    by (cases cs) (simp_all add: parse_signed_def)
  ultimately show ?thesis
    using assms by (simp add: py_int_def to_ascii_digits parse_unsigned_digits)
qed

lemma py_int_minus_digits:
  assumes "cs \<noteq> []" and "\<forall>c \<in> set cs. is_digit c"
  shows "py_int env (45 # cs) =
     (if exceeds_str_digits env (length cs) (length cs) then None
      else Some (- decimal_value cs))"
proof -
  from assms have "is_digit (last cs)"
    by simp
  then have "\<not> is_space (last (45 # cs))"
    using assms(1) by (simp add: digit_not_space)
  moreover have "\<not> is_space (hd (45 # cs))"
    by (simp add: is_space_def)
  ultimately have "strip (45 # cs) = 45 # cs"
    by (intro strip_no_space) simp_all
  then show ?thesis
    using assms
    by (simp add: py_int_def to_ascii_digits to_ascii_def parse_signed_def parse_unsigned_digits)
qed

lemma py_int_examples: "py_int env [52, 50] = Some 42" "py_int env [] = None"
  by (simp_all add: py_int_def strip_def is_space_def to_ascii_def parse_signed_def
      parse_unsigned_def is_digit_def exceeds_str_digits_def MAX_STR_DIGITS_THRESHOLD_def)

text \<open>The two built-ins agree: \<^verbatim>\<open>int(str(v))\<close> is \<open>v\<close> whenever \<^verbatim>\<open>str(v)\<close> is a string.\<close>

lemma py_int_py_str:
  assumes "py_str env v = Some s"
  shows "py_int env (map ord s) = Some v"
proof -
  let ?ds = "map ord (digits_of (nat \<bar>v\<bar>))"
  from digits_of_codes [of "nat \<bar>v\<bar>"]
  have ne: "?ds \<noteq> []" and dig: "\<forall>c \<in> set ?ds. is_digit c" and val: "decimal_value ?ds = \<bar>v\<bar>"
    by simp_all
  from assms have s: "s = decimal_string v"
    and lim: "\<not> exceeds_str_digits env (length (decimal_string v))
           (length (decimal_string v) - (if v < 0 then 1 else 0))"
    by (simp_all add: py_str_def split: if_splits)
  from lim have "\<not> exceeds_str_digits env (length ?ds) (length ?ds)"
    by (auto simp: exceeds_str_digits_def decimal_string_sign split: if_splits)
  with py_int_digits [OF ne dig, of env] py_int_minus_digits [OF ne dig, of env] val
  show ?thesis
    by (cases "v < 0") (simp_all add: s decimal_string_def ord_def)
qed

text \<open>MOVN on a writeable destination.\<close>

lemma set_operand_value_writeable:
  "writeable dest \<Longrightarrow> fst (set_operand_value dest val st) = Completed"
  by (cases dest) (simp_all split: prod.splits)

lemma movn_loop_writeable:
  "writeable dest \<Longrightarrow>
     movn_loop dest s st =
       (Completed, foldl (\<lambda>s c. clock_tick (snd (set_operand_value dest (ord c) s))) st s)"
proof (induction s arbitrary: st)
  case Nil
  show ?case by simp
next
  case (Cons c s)
  obtain out st1 where w: "set_operand_value dest (ord c) st = (out, st1)"
    by (cases "set_operand_value dest (ord c) st")
  with set_operand_value_writeable [OF Cons.prems, of "ord c" st] have "out = Completed"
    by simp
  with w Cons.IH [OF Cons.prems, of "clock_tick st1"] show ?case
    by simp
qed

lemma movn_writes_ticks:
  "ticks (foldl (\<lambda>s c. clock_tick (snd (set_operand_value dest (ord c) s))) st s) =
     ticks st + length s"
  by (induction s arbitrary: st) (simp_all add: clock_tick_def)

lemma movn_writes_memory:
  "memory (foldl (\<lambda>s c. clock_tick (memory_set (l, a) (ord c) s)) st s) =
     foldl (\<lambda>m c. mem_after_set m (l, a) (ord c)) (memory st) s"
  by (induction s arbitrary: st) (simp_all add: clock_tick_def memory_set_def)

lemma i_movn_result:
  assumes "get_operand_value src st = (v, st_v)" and "writeable dest"
  shows "i_movn env dest src st =
           (case py_str env v of
              None \<Rightarrow> (Raised ValueError, clock_tick st_v)
            | Some s \<Rightarrow>
                (Completed,
                 foldl (\<lambda>s c. clock_tick (snd (set_operand_value dest (ord c) s)))
                   (clock_tick st_v) s))"
  using assms by (simp add: i_movn_def movn_loop_writeable split: option.splits)

text \<open>
  C8 (as amended). MOVN resolves the source once and consumes one cycle. Then it takes the
  base-10 string of the value: a minus sign if the value is negative, then the digits of
  its magnitude, with no leading zero. If the interpreter's digit limit is set, the string
  has more than 640 characters and the number of digits exceeds the limit, the conversion
  raises \<open>ValueError\<close>: MOVN stops there, one cycle consumed and nothing written. Otherwise,
  for each character of the string in order, it writes the character's code to the
  destination and consumes one cycle; with a writeable destination it completes after one
  cycle plus one per character, and with an address as destination the memory controller
  has received the codes in that order. The string of 1234 is \<open>''1234''\<close> and that of -5 is
  \<open>''-5''\<close>, and reading the string of any value back as an integer gives the value.
\<close>

theorem movn_emits_characters:
  assumes "get_operand_value src st = (v, st_v)" and "writeable dest"
  shows "i_movn env dest src st =
           (case py_str env v of
              None \<Rightarrow> (Raised ValueError, clock_tick st_v)
            | Some s \<Rightarrow>
                (Completed,
                 foldl (\<lambda>s c. clock_tick (snd (set_operand_value dest (ord c) s)))
                   (clock_tick st_v) s)) \<and>
         (py_str env v = None \<longleftrightarrow>
            0 < int_max_str_digits env \<and> 640 < length (decimal_string v) \<and>
            int_max_str_digits env < length (digits_of (nat \<bar>v\<bar>))) \<and>
         (py_str env v = None \<longrightarrow>
            i_movn env dest src st = (Raised ValueError, st_v\<lparr>ticks := ticks st + 1\<rparr>)) \<and>
         (\<forall>s. py_str env v = Some s \<longrightarrow>
            s = decimal_string v \<and>
            ticks (snd (i_movn env dest src st)) = ticks st + 1 + length s \<and>
            (\<forall>l a. dest = Address l a \<longrightarrow>
               memory (snd (i_movn env dest src st)) =
                 foldl (\<lambda>m c. mem_after_set m (l, a) (ord c)) (memory st_v) s) \<and>
            py_int env (map ord s) = Some v) \<and>
         decimal_string v = (if v < 0 then ''-'' else []) @ digits_of (nat \<bar>v\<bar>) \<and>
         (\<forall>c \<in> set (digits_of (nat \<bar>v\<bar>)). is_digit (ord c)) \<and>
         decimal_value (map ord (digits_of (nat \<bar>v\<bar>))) = \<bar>v\<bar> \<and>
         (v \<noteq> 0 \<longrightarrow> ord (hd (digits_of (nat \<bar>v\<bar>))) \<noteq> 48) \<and>
         py_str env 1234 = Some ''1234'' \<and> py_str env (- 5) = Some ''-5''"
proof -
  note e = i_movn_result [OF assms, of env]
  note f = get_operand_value_frame [OF assms(1)]
  have none: "i_movn env dest src st = (Raised ValueError, st_v\<lparr>ticks := ticks st + 1\<rparr>)"
    if "py_str env v = None"
    using e f that by (simp add: clock_tick_def)
  have some: "s = decimal_string v \<and>
      ticks (snd (i_movn env dest src st)) = ticks st + 1 + length s \<and>
      (\<forall>l a. dest = Address l a \<longrightarrow>
         memory (snd (i_movn env dest src st)) =
           foldl (\<lambda>m c. mem_after_set m (l, a) (ord c)) (memory st_v) s) \<and>
      py_int env (map ord s) = Some v"
    if s: "py_str env v = Some s" for s
  proof -
    from e s have r: "i_movn env dest src st =
        (Completed,
         foldl (\<lambda>s c. clock_tick (snd (set_operand_value dest (ord c) s))) (clock_tick st_v) s)"
      by simp
    have t: "ticks (snd (i_movn env dest src st)) = ticks st + 1 + length s"
      using f by (simp add: r movn_writes_ticks) (simp add: clock_tick_def)
    have m: "memory (snd (i_movn env dest src st)) =
        foldl (\<lambda>m c. mem_after_set m (l, a) (ord c)) (memory st_v) s"
      if d: "dest = Address l a" for l a
    proof -
      from r [unfolded d] have "memory (snd (i_movn env (Address l a) src st)) =
          foldl (\<lambda>m c. mem_after_set m (l, a) (ord c)) (memory (clock_tick st_v)) s"
        by (simp add: movn_writes_memory)
      then show ?thesis
        by (simp add: d clock_tick_def)
    qed
    from py_str_cases(2) [OF s] t m py_int_py_str [OF s] show ?thesis
      by blast
  qed
  have z: "v \<noteq> 0 \<longrightarrow> ord (hd (digits_of (nat \<bar>v\<bar>))) \<noteq> 48"
    using digits_of_no_leading_zero [of "nat \<bar>v\<bar>"] by simp
  have dv: "decimal_value (map ord (digits_of (nat \<bar>v\<bar>))) = \<bar>v\<bar>"
    using digits_of_codes [of "nat \<bar>v\<bar>"] by simp
  from e none some z dv digits_of_codes [of "nat \<bar>v\<bar>"] py_str_cases(1) [of env v]
    decimal_string_sign [of v] py_str_examples [of env]
  show ?thesis
    by (intro conjI) (assumption | blast)+
qed

theorem movn_emits_characters_witness:
  "writeable (Address ''out'' 0) \<and>
   i_movn env0 (Address ''out'' 0) (Constant 1234) (machine0 (console [] [])) =
     (Completed, (machine0 (console [] [49, 50, 51, 52]))\<lparr>ticks := 5\<rparr>) \<and>
   i_movn env0 (Address ''out'' 0) (Constant (- 5)) (machine0 (console [] [])) =
     (Completed, (machine0 (console [] [45, 53]))\<lparr>ticks := 3\<rparr>)"
  using movn_emits_characters [where src = "Constant 1234" and st = "machine0 (console [] [])"
      and v = 1234 and st_v = "machine0 (console [] [])" and dest = "Address ''out'' 0"
      and env = env0]
    movn_emits_characters [where src = "Constant (- 5)" and st = "machine0 (console [] [])"
      and v = "- 5" and st_v = "machine0 (console [] [])" and dest = "Address ''out'' 0"
      and env = env0]
  by (simp add: machine0_def clock_tick_def memory_set_def ord_def)

text \<open>
  The claim as stated fails for a value beyond the digit limit. With the default limit of
  4300 digits, MOVN of \<open>10 ^ 4300\<close>, which has 4301 digits, raises \<open>ValueError\<close> after its
  first cycle and writes no character to the output stream.
\<close>

theorem movn_emits_characters_counterexample:
  "i_movn env0 (Address ''out'' 0) (Constant (10 ^ 4300)) (machine0 (console [] [])) =
     (Raised ValueError, (machine0 (console [] []))\<lparr>ticks := 1\<rparr>)"
proof -
  have "py_str env0 (10 ^ 4300) = None"
    by (rule py_str_power) (simp_all add: env0_def)
  moreover have "get_operand_value (Constant (10 ^ 4300)) (machine0 (console [] [])) =
      (10 ^ 4300, machine0 (console [] []))"
    by (simp only: get_operand_value.simps)
  moreover have "clock_tick (machine0 (console [] [])) = (machine0 (console [] []))\<lparr>ticks := 1\<rparr>"
    by (simp add: clock_tick_def machine0_def)
  ultimately show ?thesis
    by (simp only: i_movn_def prod.case option.case)
qed

text \<open>
  The loop of LDN ends only if the source yields the terminator (or a value that is no
  code point): on a constant that is a code point other than the terminator it runs
  forever.
\<close>

lemma ldn_loop_constant:
  assumes "ldn_loop nt src acc st = Some r"
  shows "\<forall>c. src = Constant c \<longrightarrow> 0 \<le> c \<longrightarrow> c \<le> 0x10FFFF \<longrightarrow> c = nt"
proof (rule ldn_loop.raw_induct
    [where P = "\<lambda>nt src acc st r. \<forall>c. src = Constant c \<longrightarrow> 0 \<le> c \<longrightarrow> c \<le> 0x10FFFF \<longrightarrow> c = nt",
      OF _ assms], goal_cases)
  case (1 loop nt src acc st r)
  show ?case
  proof (intro allI impI)
    fix c
    assume src: "src = Constant c" and range: "0 \<le> c" "c \<le> 0x10FFFF"
    show "c = nt"
    proof (rule ccontr)
      assume "c \<noteq> nt"
      with 1(2) src range have "loop nt src (acc @ [c]) (clock_tick st) = Some r"
        by (simp add: chr_def)
      from 1(1) [OF this] src range have "c = nt"
        by blast
      with \<open>c \<noteq> nt\<close> show False ..
    qed
  qed
qed

lemma ldn_loop_diverges:
  assumes "c \<noteq> nt" and "0 \<le> c" and "c \<le> 0x10FFFF"
  shows "ldn_loop nt (Constant c) acc st = None"
proof (cases "ldn_loop nt (Constant c) acc st")
  case (Some r)
  from ldn_loop_constant [OF this] assms show ?thesis
    by blast
qed simp

text \<open>A value that is no code point ends LDN with the exception of \<^verbatim>\<open>chr\<close>, with no tick.\<close>

lemma ldn_bad_code:
  assumes "get_operand_value src st = (c, st_c)" and "c \<noteq> NULL_TERM env"
    and "c < 0 \<or> 0x10FFFF < c"
  shows "i_ldn env dest src st =
     Some (Raised (if - (2 ^ 31) \<le> c \<and> c < 2 ^ 31 then ValueError else OverflowError), st_c)"
proof -
  from assms have "ldn_loop (NULL_TERM env) src [] st =
      Some (Inl (if - (2 ^ 31) \<le> c \<and> c < 2 ^ 31 then ValueError else OverflowError), st_c)"
    by (subst ldn_loop.simps) (auto simp: chr_def)
  then show ?thesis
    by (simp add: i_ldn_def)
qed

lemma ldn_loop_read_chars:
  assumes "read_chars src k st = (cs, st_k)"
    and "\<forall>c \<in> set cs. c \<noteq> nt \<and> 0 \<le> c \<and> c \<le> 0x10FFFF"
  shows "ldn_loop nt src acc st = ldn_loop nt src (acc @ cs) st_k"
  using assms
proof (induction k arbitrary: st cs acc)
  case 0
  then show ?case by simp
next
  case (Suc k)
  obtain c st1 where g: "get_operand_value src st = (c, st1)"
    by (cases "get_operand_value src st")
  obtain cs' st2 where r: "read_chars src k (clock_tick st1) = (cs', st2)"
    by (cases "read_chars src k (clock_tick st1)")
  from Suc.prems(1) g r have cs: "cs = c # cs'" and st2: "st2 = st_k"
    by simp_all
  from Suc.prems(2) cs have c: "c \<noteq> nt" "chr c = Inr c"
    and rest: "\<forall>c \<in> set cs'. c \<noteq> nt \<and> 0 \<le> c \<and> c \<le> 0x10FFFF"
    by (simp_all add: chr_def)
  have "ldn_loop nt src acc st = ldn_loop nt src (acc @ [c]) (clock_tick st1)"
    by (subst ldn_loop.simps) (simp add: g c)
  also have "\<dots> = ldn_loop nt src ((acc @ [c]) @ cs') st_k"
    using r [unfolded st2] rest by (rule Suc.IH)
  finally show ?case
    by (simp add: cs)
qed

lemma read_chars_frame:
  "read_chars src k st = (cs, st_k) \<Longrightarrow>
     length cs = k \<and> ticks st_k = ticks st + k \<and> registers st_k = registers st \<and>
     flags st_k = flags st \<and> reads_only (memory st) (memory st_k)"
proof (induction k arbitrary: st cs)
  case 0
  then show ?case by (auto intro: reads_only.intros)
next
  case (Suc k)
  obtain c st1 where g: "get_operand_value src st = (c, st1)"
    by (cases "get_operand_value src st")
  obtain cs' st2 where r: "read_chars src k (clock_tick st1) = (cs', st2)"
    by (cases "read_chars src k (clock_tick st1)")
  from Suc.prems g r have cs: "cs = c # cs'" and st2: "st2 = st_k"
    by simp_all
  from get_operand_value_reads_only [OF g] have "reads_only (memory st) (memory (clock_tick st1))"
    by (simp add: clock_tick_def)
  moreover from r st2 have "read_chars src k (clock_tick st1) = (cs', st_k)"
    by simp
  note Suc.IH [OF this]
  ultimately show ?case
    using get_operand_value_frame [OF g]
    by (auto simp: cs clock_tick_def intro: reads_only_trans)
qed

lemma i_ldn_result:
  assumes "read_chars src k st = (cs, st_k)"
    and "\<forall>c \<in> set cs. c \<noteq> NULL_TERM env \<and> 0 \<le> c \<and> c \<le> 0x10FFFF"
    and "get_operand_value src st_k = (NULL_TERM env, st_end)"
  shows "i_ldn env dest src st =
           Some (case py_int env cs of
                   None \<Rightarrow> (Raised ValueError, st_end)
                 | Some n \<Rightarrow> set_operand_value dest n st_end)"
proof -
  have "ldn_loop (NULL_TERM env) src [] st = ldn_loop (NULL_TERM env) src ([] @ cs) st_k"
    using assms(1,2) by (rule ldn_loop_read_chars)
  also have "\<dots> = Some (Inr cs, st_end)"
    by (subst ldn_loop.simps) (simp add: assms(3))
  finally show ?thesis
    by (simp add: i_ldn_def split: option.splits)
qed

text \<open>Reading from the console: the next characters of its input stream, in order.\<close>

lemma memory_unchanged: "memory st = m \<Longrightarrow> st\<lparr>memory := m\<rparr> = st"
  by (cases st) simp

lemma read_chars_console:
  "memory st = console (xs @ rest) out \<Longrightarrow>
     read_chars (Address l a) (length xs) st =
       (xs, st\<lparr>ticks := ticks st + length xs, memory := console rest out\<rparr>)"
proof (induction xs arbitrary: st)
  case Nil
  then show ?case
    by (simp add: memory_unchanged)
next
  case (Cons x xs)
  let ?st1 = "clock_tick (st\<lparr>memory := console (xs @ rest) out\<rparr>)"
  from Cons.prems have g: "get_operand_value (Address l a) st =
      (x, st\<lparr>memory := console (xs @ rest) out\<rparr>)"
    by (simp add: memory_get_def)
  have "memory ?st1 = console (xs @ rest) out"
    by (simp add: clock_tick_def)
  from Cons.IH [OF this] g show ?case
    by (simp add: clock_tick_def)
qed

text \<open>
  C9 (as amended). LDN resolves the source again and again, one cycle per character read,
  and accumulates the codes until the source yields \<open>NULL_TERM\<close>; it then parses the
  accumulated string as a base-10 integer and writes it to the destination, or raises
  \<open>ValueError\<close> with no write if the string is not accepted as an integer. Stated for a
  source that yields the codes \<open>cs\<close> in \<open>k\<close> reads and then the terminator: LDN returns, \<open>k\<close>
  cycles were consumed, and the result is the write of \<open>int(cs)\<close> or the \<open>ValueError\<close>. A
  non-empty string of digits, or a minus sign before one, is accepted and denotes its
  decimal value unless the interpreter's digit limit is set, the string has more than 640
  digits and their number exceeds the limit; then it is refused. Reading \<open>'4'\<close>, \<open>'2'\<close> and
  the terminator writes 42; reading the terminator at once raises \<open>ValueError\<close>. Whenever
  \<open>ValueError\<close> is raised nothing was written: the registers are unchanged and the memory
  controller has only been read.
\<close>

theorem ldn_reads_number:
  assumes "read_chars src k st = (cs, st_k)"
    and "\<forall>c \<in> set cs. c \<noteq> NULL_TERM env \<and> 0 \<le> c \<and> c \<le> 0x10FFFF"
    and "get_operand_value src st_k = (NULL_TERM env, st_end)"
  shows "i_ldn env dest src st =
           Some (case py_int env cs of
                   None \<Rightarrow> (Raised ValueError, st_end)
                 | Some n \<Rightarrow> set_operand_value dest n st_end) \<and>
         length cs = k \<and> ticks st_end = ticks st + k \<and>
         registers st_end = registers st \<and> reads_only (memory st) (memory st_end) \<and>
         (cs \<noteq> [] \<and> (\<forall>c \<in> set cs. is_digit c) \<longrightarrow>
            py_int env cs =
              (if exceeds_str_digits env (length cs) (length cs) then None
               else Some (decimal_value cs))) \<and>
         (\<forall>ds. cs = 45 # ds \<and> ds \<noteq> [] \<and> (\<forall>c \<in> set ds. is_digit c) \<longrightarrow>
            py_int env cs =
              (if exceeds_str_digits env (length ds) (length ds) then None
               else Some (- decimal_value ds))) \<and>
         (cs = [52, 50] \<longrightarrow> i_ldn env dest src st = Some (set_operand_value dest 42 st_end)) \<and>
         (cs = [] \<longrightarrow> i_ldn env dest src st = Some (Raised ValueError, st_end)) \<and>
         (py_int env cs = None \<longrightarrow> i_ldn env dest src st = Some (Raised ValueError, st_end))"
proof -
  note e = i_ldn_result [OF assms, of dest]
  note f = read_chars_frame [OF assms(1)] get_operand_value_frame [OF assms(3)]
  have r: "reads_only (memory st) (memory st_end)"
    using f(1) get_operand_value_reads_only [OF assms(3)] by (blast intro: reads_only_trans)
  have d: "cs \<noteq> [] \<and> (\<forall>c \<in> set cs. is_digit c) \<longrightarrow>
            py_int env cs =
              (if exceeds_str_digits env (length cs) (length cs) then None
               else Some (decimal_value cs))"
    using py_int_digits [of cs env] by blast
  have m: "\<forall>ds. cs = 45 # ds \<and> ds \<noteq> [] \<and> (\<forall>c \<in> set ds. is_digit c) \<longrightarrow>
            py_int env cs =
              (if exceeds_str_digits env (length ds) (length ds) then None
               else Some (- decimal_value ds))"
    using py_int_minus_digits [of _ env] by blast
  from e f r have "i_ldn env dest src st =
           Some (case py_int env cs of
                   None \<Rightarrow> (Raised ValueError, st_end)
                 | Some n \<Rightarrow> set_operand_value dest n st_end) \<and>
         length cs = k \<and> ticks st_end = ticks st + k \<and>
         registers st_end = registers st \<and> reads_only (memory st) (memory st_end) \<and>
         (cs = [52, 50] \<longrightarrow> i_ldn env dest src st = Some (set_operand_value dest 42 st_end)) \<and>
         (cs = [] \<longrightarrow> i_ldn env dest src st = Some (Raised ValueError, st_end)) \<and>
         (py_int env cs = None \<longrightarrow> i_ldn env dest src st = Some (Raised ValueError, st_end))"
    by (simp add: py_int_examples)
  with d m show ?thesis
    by blast
qed

theorem ldn_reads_number_witness:
  "read_chars (Address ''in'' 0) 2 (machine0 (console [52, 50] [])) =
     ([52, 50], (machine0 (console [] []))\<lparr>ticks := 2\<rparr>) \<and>
   i_ldn env0 (Register ''r'') (Address ''in'' 0) (machine0 (console [52, 50] [])) =
     Some (Completed,
           (machine0 (console [] []))
             \<lparr>ticks := 2, registers := (registers (machine0 (console [] [])))(''r'' := 42)\<rparr>) \<and>
   i_ldn env0 (Register ''r'') (Address ''in'' 0) (machine0 (console [] [])) =
     Some (Raised ValueError, machine0 (console [] []))"
  using ldn_reads_number [where src = "Address ''in'' 0" and k = 2
      and st = "machine0 (console [52, 50] [])" and cs = "[52, 50]"
      and st_k = "(machine0 (console [] []))\<lparr>ticks := 2\<rparr>" and env = env0
      and st_end = "(machine0 (console [] []))\<lparr>ticks := 2\<rparr>" and dest = "Register ''r''"]
    ldn_reads_number [where src = "Address ''in'' 0" and k = 0
      and st = "machine0 (console [] [])" and cs = "[]"
      and st_k = "machine0 (console [] [])" and env = env0
      and st_end = "machine0 (console [] [])" and dest = "Register ''r''"]
  by (simp add: machine0_def env0_def memory_get_def clock_tick_def registers_set_def
      eval_nat_numeral py_int_examples)

text \<open>
  The claim as stated fails for a number beyond the digit limit. With the default limit of
  4300 digits, LDN reading 4301 times the character \<open>'1'\<close> and then the terminator has
  accumulated a well-formed base-10 integer, yet it raises \<open>ValueError\<close> and writes nothing
  to the destination.
\<close>

theorem ldn_reads_number_counterexample:
  "i_ldn env0 (Register ''r'') (Address ''in'' 0) (machine0 (console (replicate 4301 49) [])) =
     Some (Raised ValueError, (machine0 (console [] []))\<lparr>ticks := 4301\<rparr>)"
proof -
  let ?cs = "replicate 4301 (49::int)"
  let ?st = "machine0 (console ?cs [])"
  let ?st_k = "(machine0 (console [] []))\<lparr>ticks := 4301\<rparr>"
  have "memory ?st = console (?cs @ []) []"
    by (simp add: machine0_def)
  from read_chars_console [OF this, of "''in''" 0]
  have rc: "read_chars (Address ''in'' 0) 4301 ?st = (?cs, ?st_k)"
    by (simp add: machine0_def)
  have range: "\<forall>c \<in> set ?cs. c \<noteq> NULL_TERM env0 \<and> 0 \<le> c \<and> c \<le> 0x10FFFF"
    by (simp add: env0_def)
  have nt: "get_operand_value (Address ''in'' 0) ?st_k = (NULL_TERM env0, ?st_k)"
    by (simp add: memory_get_def machine0_def env0_def)
  have "py_int env0 ?cs = None"
    by (subst py_int_digits)
      (simp_all add: is_digit_def exceeds_str_digits_def MAX_STR_DIGITS_THRESHOLD_def env0_def)
  with i_ldn_result [OF rc range nt, of "Register ''r''"] show ?thesis
    by (simp only: option.case)
qed

end
